theory Spec2Isabelle
  imports Main "HOL-Library.AList"
begin

section \<open>Python string primitives used by the server\<close>

text \<open>
  Python \<open>str\<close> values are modelled as \<open>string\<close>; one \<open>char\<close> stands for one code
  point below 256.  The functions below are \<open>str.startswith\<close>, \<open>str.endswith\<close>,
  \<open>str.lstrip(chars)\<close> with a one-character argument, and \<open>str.rfind\<close> with a
  one-character argument (\<open>-1\<close> when the character does not occur).
\<close>

definition startswith :: "string \<Rightarrow> string \<Rightarrow> bool" where
  "startswith s p = (take (length p) s = p)"

definition endswith :: "string \<Rightarrow> string \<Rightarrow> bool" where
  "endswith s p = (length p \<le> length s \<and> drop (length s - length p) s = p)"

definition lstrip :: "char \<Rightarrow> string \<Rightarrow> string" where
  "lstrip c s = dropWhile (\<lambda>x. x = c) s"

definition rfind :: "string \<Rightarrow> char \<Rightarrow> int" where
  "rfind s c =
     (if c \<in> set s
      then int (length s) - 1 - int (length (takeWhile (\<lambda>x. x \<noteq> c) (rev s)))
      else - 1)"

text \<open>Python's truth value of a string: the empty string is false.\<close>

definition truthy :: "string option \<Rightarrow> bool" where
  "truthy o_s = (case o_s of None \<Rightarrow> False | Some s \<Rightarrow> s \<noteq> [])"

section \<open>\<open>utils/s3_utils.py\<close>: \<open>is_s3_uri\<close>\<close>

definition is_s3_uri :: "string \<Rightarrow> bool" where
  "is_s3_uri path = startswith path ''s3://''"

section \<open>The standard library: \<open>urllib.parse.urlparse\<close>, \<open>os.path\<close>, \<open>str(int)\<close>\<close>

text \<open>
  \<open>urlparse\<close> as CPython 3.11 computes it, for the two components \<open>parse_s3_uri\<close>
  reads (\<open>netloc\<close> and \<open>path\<close>) and for a scheme that takes no \<open>;parameters\<close>, as
  \<open>s3\<close> is: tab, line feed and carriage return are removed from the URL; a leading
  \<open>scheme:\<close> is split off; after \<open>//\<close> the network location runs up to the first of
  \<open>/ ? #\<close>; a network location with one square bracket and not the other raises
  \<open>ValueError\<close>; the fragment (from the first \<open>#\<close>) and then the query (from the first
  \<open>?\<close>) are cut off what remains, which is the path.

  \<open>urlparse\<close> validates the network location further, and what it checks depends on
  the version of Python: the host between matched square brackets must be an IP
  literal (from 3.11.4 on), the brackets must stand where a host may stand (later
  patch releases), and a network location outside ASCII must not turn into one that
  holds \<open>/ ? # @ :\<close> under NFKC normalisation.  Each of these raises \<open>ValueError\<close> and
  each depends on the network location alone.  They are a parameter of the model,
  \<open>check_netloc\<close>: it returns the message of the \<open>ValueError\<close> raised for a network
  location, or \<open>None\<close> when the network location is accepted.
\<close>

datatype py_exception = ValueError string | IOError string | TypeError string

record url_parts =
  netloc :: string
  path :: string

definition unsafe_url_char :: "char \<Rightarrow> bool" where
  "unsafe_url_char c = (c = CHR 0x09 \<or> c = CHR 0x0A \<or> c = CHR 0x0D)"

definition ascii_letters :: string where
  "ascii_letters = ''abcdefghijklmnopqrstuvwxyzABCDEFGHIJKLMNOPQRSTUVWXYZ''"

definition scheme_chars :: string where
  "scheme_chars = ascii_letters @ ''0123456789+-.''"

definition split_scheme :: "string \<Rightarrow> string" where
  "split_scheme url =
     (let i = length (takeWhile (\<lambda>c. c \<noteq> CHR '':'') url)
      in if CHR '':'' \<in> set url \<and> 0 < i \<and> hd url \<in> set ascii_letters \<and>
            list_all (\<lambda>c. c \<in> set scheme_chars) (take i url)
         then drop (Suc i) url
         else url)"

definition netloc_delim :: "char \<Rightarrow> bool" where
  "netloc_delim c = (c = CHR ''/'' \<or> c = CHR ''?'' \<or> c = CHR ''#'')"

definition splitnetloc :: "string \<Rightarrow> string \<times> string" where
  "splitnetloc url =
     (takeWhile (\<lambda>c. \<not> netloc_delim c) (drop 2 url),
      dropWhile (\<lambda>c. \<not> netloc_delim c) (drop 2 url))"

definition check_netloc_brackets :: "(string \<Rightarrow> string option) \<Rightarrow> string \<Rightarrow> string option" where
  "check_netloc_brackets check_netloc nl =
     (if (CHR ''['' \<in> set nl \<and> CHR '']'' \<notin> set nl) \<or>
         (CHR '']'' \<in> set nl \<and> CHR ''['' \<notin> set nl)
      then Some ''Invalid IPv6 URL''
      else check_netloc nl)"

definition urlparse :: "(string \<Rightarrow> string option) \<Rightarrow> string \<Rightarrow> py_exception + url_parts" where
  "urlparse check_netloc url0 =
     (let url1 = split_scheme (filter (\<lambda>c. \<not> unsafe_url_char c) url0);
          (nl, url2) = (if take 2 url1 = ''//'' then splitnetloc url1 else ([], url1))
      in case check_netloc_brackets check_netloc nl of
           Some m \<Rightarrow> Inl (ValueError m)
         | None \<Rightarrow>
             Inr \<lparr>netloc = nl,
                  path = takeWhile (\<lambda>c. c \<noteq> CHR ''?'')
                           (takeWhile (\<lambda>c. c \<noteq> CHR ''#'') url2)\<rparr>)"

text \<open>
  \<open>os.path.splitext\<close>, \<open>os.path.basename\<close> and \<open>os.path.dirname\<close> of \<open>posixpath\<close>
  (separator \<open>/\<close>, extension separator \<open>.\<close>).  \<open>splitext\<close> splits at the last dot
  when that dot comes after the last separator and some character between the
  separator and the dot is not a dot.
\<close>

definition slice :: "int \<Rightarrow> int \<Rightarrow> string \<Rightarrow> string" where
  "slice i j s = take (nat j - nat i) (drop (nat i) s)"

definition splitext :: "string \<Rightarrow> string \<times> string" where
  "splitext p =
     (let sepIndex = rfind p CHR ''/'';
          dotIndex = rfind p CHR ''.''
      in if dotIndex > sepIndex \<and>
            list_ex (\<lambda>c. c \<noteq> CHR ''.'') (slice (sepIndex + 1) dotIndex p)
         then (take (nat dotIndex) p, drop (nat dotIndex) p)
         else (p, []))"

definition basename :: "string \<Rightarrow> string" where
  "basename p = drop (nat (rfind p CHR ''/'' + 1)) p"

definition rstrip :: "char \<Rightarrow> string \<Rightarrow> string" where
  "rstrip c s = rev (dropWhile (\<lambda>x. x = c) (rev s))"

definition dirname :: "string \<Rightarrow> string" where
  "dirname p =
     (let head = take (nat (rfind p CHR ''/'' + 1)) p
      in if head \<noteq> [] \<and> head \<noteq> replicate (length head) CHR ''/''
         then rstrip CHR ''/'' head else head)"

text \<open>\<open>str\<close> of a Python integer: decimal digits, with a minus sign when negative.\<close>

fun nat_digits :: "nat \<Rightarrow> string" where
  "nat_digits n =
     (if n < 10 then [''0123456789'' ! n]
      else nat_digits (n div 10) @ [''0123456789'' ! (n mod 10)])"

declare nat_digits.simps [simp del]

definition str_int :: "int \<Rightarrow> string" where
  "str_int i = (if i < 0 then CHR ''-'' # nat_digits (nat (- i)) else nat_digits (nat i))"

section \<open>\<open>utils/s3_utils.py\<close>: \<open>parse_s3_uri\<close>\<close>

text \<open>
  \<open>parse_s3_uri\<close> raises \<open>ValueError\<close> (the spec's \<open>InvalidAddress\<close>) or returns the
  pair of bucket and key.  A \<open>ValueError\<close> raised inside \<open>urlparse\<close> leaves the
  function as it is.
\<close>

definition parse_s3_uri :: "(string \<Rightarrow> string option) \<Rightarrow> string \<Rightarrow> py_exception + (string \<times> string)" where
  "parse_s3_uri check_netloc s3_uri =
     (if \<not> is_s3_uri s3_uri then Inl (ValueError (''Not a valid S3 URI: '' @ s3_uri))
      else case urlparse check_netloc s3_uri of
             Inl e \<Rightarrow> Inl e
           | Inr parsed \<Rightarrow>
               (let bucket = netloc parsed;
                    key = lstrip CHR ''/'' (path parsed)
                in if bucket = [] then Inl (ValueError (''No bucket specified in S3 URI: '' @ s3_uri))
                   else if key = [] then Inl (ValueError (''No key specified in S3 URI: '' @ s3_uri))
                   else Inr (bucket, key)))"

section \<open>\<open>parse_s3_uri\<close> on strings of all of Unicode\<close>

text \<open>
  A Python string holds code points of all of Unicode, and \<open>urlparse\<close> treats those
  outside ASCII in its own way.  The functions above work on \<open>string\<close>, which reaches
  the code points below 256.  Here \<open>is_s3_uri\<close>, \<open>urlparse\<close> and \<open>parse_s3_uri\<close> are
  given once more, step for step, on lists of code points; \<open>wide\<close> takes a \<open>string\<close>
  there, and lemma \<open>parse_s3_uri_wide_agrees\<close> shows that the two parsers fail on
  the same strings and return the same bucket and key.  The error of the parser on
  code points says which \<open>raise\<close> was taken.
\<close>

definition wide :: "string \<Rightarrow> nat list" where
  "wide s = map of_char s"

datatype invalid_address =
    Not_valid_s3_uri
  | Rejected_by_urlparse string
  | No_bucket_specified
  | No_key_specified

definition is_s3_uri_wide :: "nat list \<Rightarrow> bool" where
  "is_s3_uri_wide u = (take (length ''s3://'') u = wide ''s3://'')"

definition unsafe_code_point :: "nat \<Rightarrow> bool" where
  "unsafe_code_point n =
     (n = of_char (CHR 0x09) \<or> n = of_char (CHR 0x0A) \<or> n = of_char (CHR 0x0D))"

definition split_scheme_wide :: "nat list \<Rightarrow> nat list" where
  "split_scheme_wide url =
     (let i = length (takeWhile (\<lambda>n. n \<noteq> of_char CHR '':'') url)
      in if of_char CHR '':'' \<in> set url \<and> 0 < i \<and> hd url \<in> set (wide ascii_letters) \<and>
            list_all (\<lambda>n. n \<in> set (wide scheme_chars)) (take i url)
         then drop (Suc i) url
         else url)"

definition netloc_delim_wide :: "nat \<Rightarrow> bool" where
  "netloc_delim_wide n =
     (n = of_char CHR ''/'' \<or> n = of_char CHR ''?'' \<or> n = of_char CHR ''#'')"

definition splitnetloc_wide :: "nat list \<Rightarrow> nat list \<times> nat list" where
  "splitnetloc_wide url =
     (takeWhile (\<lambda>n. \<not> netloc_delim_wide n) (drop 2 url),
      dropWhile (\<lambda>n. \<not> netloc_delim_wide n) (drop 2 url))"

definition unmatched_bracket :: "nat list \<Rightarrow> bool" where
  "unmatched_bracket nl =
     ((of_char CHR ''['' \<in> set nl \<and> of_char CHR '']'' \<notin> set nl) \<or>
      (of_char CHR '']'' \<in> set nl \<and> of_char CHR ''['' \<notin> set nl))"

definition check_netloc_brackets_wide ::
  "(nat list \<Rightarrow> string option) \<Rightarrow> nat list \<Rightarrow> string option" where
  "check_netloc_brackets_wide check_netloc nl =
     (if unmatched_bracket nl then Some ''Invalid IPv6 URL'' else check_netloc nl)"

definition urlparse_wide ::
  "(nat list \<Rightarrow> string option) \<Rightarrow> nat list \<Rightarrow> string + (nat list \<times> nat list)" where
  "urlparse_wide check_netloc url0 =
     (let url1 = split_scheme_wide (filter (\<lambda>n. \<not> unsafe_code_point n) url0);
          (nl, url2) = (if take 2 url1 = wide ''//'' then splitnetloc_wide url1 else ([], url1))
      in case check_netloc_brackets_wide check_netloc nl of
           Some m \<Rightarrow> Inl m
         | None \<Rightarrow>
             Inr (nl, takeWhile (\<lambda>n. n \<noteq> of_char CHR ''?'')
                        (takeWhile (\<lambda>n. n \<noteq> of_char CHR ''#'') url2)))"

definition parse_s3_uri_wide ::
  "(nat list \<Rightarrow> string option) \<Rightarrow> nat list \<Rightarrow> invalid_address + (nat list \<times> nat list)" where
  "parse_s3_uri_wide check_netloc s3_uri =
     (if \<not> is_s3_uri_wide s3_uri then Inl Not_valid_s3_uri
      else case urlparse_wide check_netloc s3_uri of
             Inl m \<Rightarrow> Inl (Rejected_by_urlparse m)
           | Inr (nl, pth) \<Rightarrow>
               (let bucket = nl;
                    key = dropWhile (\<lambda>n. n = of_char CHR ''/'') pth
                in if bucket = [] then Inl No_bucket_specified
                   else if key = [] then Inl No_key_specified
                   else Inr (bucket, key)))"

section \<open>The world outside the program\<close>

text \<open>
  The local file system is a finite table from paths to contents; \<open>trace\<close> records, in
  order, every call that touches the file system or the object store.  The contents of
  a file are opaque bytes (\<open>Object_bytes\<close>), nothing (\<open>Empty_file\<close>, what \<open>mkstemp\<close>
  leaves), or a document written by the document library (\<open>Saved_docx\<close>).
\<close>

record source_run =
  bold :: "bool option"
  italic :: "bool option"
  underline :: "bool option"
  font_size :: "nat option"

record source_paragraph =
  para_text :: string
  style_name :: "string option"
  runs :: "source_run list"

record source_document =
  paragraphs :: "source_paragraph list"
  tables :: "string list list list"

record built_paragraph =
  new_text :: string
  new_style :: string
  new_runs :: "source_run list"

datatype block = Page_break | Paragraph built_paragraph | Table "string list list"

datatype contents = Empty_file | Object_bytes nat | Saved_docx "block list"

datatype s3_failure = NoCredentialsError | ClientError string string | OtherError string

datatype event =
    Mkstemp string
  | S3_download string string string bool
  | S3_upload string string string string bool
  | Save string "block list"
  | Copy string string
  | Unlink string

record world =
  files :: "(string \<times> contents) list"
  trace :: "event list"

text \<open>
  The environment holds what the program cannot decide: the clock, the object store's
  answers, the permissions of the local file system, and the document library's
  reader.  \<open>ClientError code text\<close> carries the error code of the response and the
  text of the exception; \<open>OtherError text\<close> is any other exception.
\<close>

record env =
  check_netloc :: "string \<Rightarrow> string option"
  time_now :: int
  client_failure :: "s3_failure option"
  s3_download_file :: "string \<Rightarrow> string \<Rightarrow> s3_failure + contents"
  s3_upload_file :: "string \<Rightarrow> string \<Rightarrow> s3_failure option"
  directory_exists :: "string \<Rightarrow> bool"
  access_w_ok :: "string \<Rightarrow> bool"
  open_append_failure :: "string \<Rightarrow> py_exception option"
  load_document :: "contents \<Rightarrow> string + source_document"
  save_failure :: "string \<Rightarrow> string option"
  template_styles :: "string list"

definition file_exists :: "world \<Rightarrow> string \<Rightarrow> bool" where
  "file_exists w p = (map_of (files w) p \<noteq> None)"

definition write_file :: "string \<Rightarrow> contents \<Rightarrow> world \<Rightarrow> world" where
  "write_file p c w = w\<lparr>files := AList.update p c (files w)\<rparr>"

definition log :: "event \<Rightarrow> world \<Rightarrow> world" where
  "log e w = w\<lparr>trace := trace w @ [e]\<rparr>"

text \<open>
  \<open>os.unlink\<close>.  Every call in the program sits in a \<open>try\<close> whose handler ignores the
  exception; the model takes the call to succeed.
\<close>

definition unlink :: "string \<Rightarrow> world \<Rightarrow> world" where
  "unlink p w = log (Unlink p) (w\<lparr>files := AList.delete p (files w)\<rparr>)"

text \<open>
  \<open>tempfile.mkstemp(suffix=...)\<close> followed by \<open>os.close\<close>: a new empty file whose
  name no existing file has and which ends with the suffix.  The model makes the name
  longer than every existing path.
\<close>

definition longest_path :: "(string \<times> contents) list \<Rightarrow> nat" where
  "longest_path fs = foldr (\<lambda>pc m. max (length (fst pc)) m) fs 0"

definition mkstemp :: "string \<Rightarrow> world \<Rightarrow> string \<times> world" where
  "mkstemp suffix w =
     (let p = ''/tmp/tmp'' @ replicate (Suc (longest_path (files w))) CHR ''x'' @ suffix
      in (p, log (Mkstemp p) (write_file p Empty_file w)))"

text \<open>\<open>shutil.copy2\<close>: raises when the source file is missing.\<close>

definition copy2 :: "string \<Rightarrow> string \<Rightarrow> world \<Rightarrow> py_exception option \<times> world" where
  "copy2 src dst w =
     (case map_of (files w) src of
        None \<Rightarrow> (Some (IOError (''No such file or directory: '' @ src)), w)
      | Some c \<Rightarrow> (None, log (Copy src dst) (write_file dst c w)))"

definition str_exception :: "py_exception \<Rightarrow> string" where
  "str_exception e = (case e of ValueError m \<Rightarrow> m | IOError m \<Rightarrow> m | TypeError m \<Rightarrow> m)"

section \<open>\<open>utils/s3_utils.py\<close>: \<open>download_from_s3\<close>, \<open>upload_to_s3\<close>\<close>

definition download_failure_message :: "string \<Rightarrow> s3_failure \<Rightarrow> string" where
  "download_failure_message s3_uri f =
     (case f of
        NoCredentialsError \<Rightarrow> ''AWS credentials not configured''
      | ClientError error_code txt \<Rightarrow>
          (if error_code = ''404'' then ''S3 object not found: '' @ s3_uri
           else if error_code = ''403'' then ''Access denied to S3 object: '' @ s3_uri
           else ''S3 error: '' @ txt)
      | OtherError txt \<Rightarrow> ''Failed to download from S3: '' @ txt)"

definition download_from_s3 ::
  "env \<Rightarrow> string \<Rightarrow> string option \<Rightarrow> world \<Rightarrow> (bool \<times> string \<times> string option) \<times> world" where
  "download_from_s3 e s3_uri given_path w =
     (case parse_s3_uri (check_netloc e) s3_uri of
        Inl err \<Rightarrow> ((False, str_exception err, None), w)
      | Inr (bucket, key) \<Rightarrow>
          (case client_failure e of
             Some f \<Rightarrow> ((False, download_failure_message s3_uri f, None), w)
           | None \<Rightarrow>
               (let (lp, w1) =
                      (case given_path of
                         None \<Rightarrow> mkstemp (snd (splitext (basename key))) w
                       | Some p \<Rightarrow> (p, w))
                in case s3_download_file e bucket key of
                     Inl f \<Rightarrow>
                       ((False, download_failure_message s3_uri f, None),
                        log (S3_download bucket key lp False) w1)
                   | Inr c \<Rightarrow>
                       ((True, ''Downloaded from S3'', Some lp),
                        log (S3_download bucket key lp True) (write_file lp c w1)))))"

definition upload_failure_message :: "string \<Rightarrow> s3_failure \<Rightarrow> string" where
  "upload_failure_message s3_uri f =
     (case f of
        NoCredentialsError \<Rightarrow> ''AWS credentials not configured''
      | ClientError error_code txt \<Rightarrow>
          (if error_code = ''403'' then ''Access denied uploading to S3: '' @ s3_uri
           else ''S3 error: '' @ txt)
      | OtherError txt \<Rightarrow> ''Failed to upload to S3: '' @ txt)"

definition upload_content_type :: "string \<Rightarrow> string" where
  "upload_content_type lp =
     (if endswith lp ''.pdf'' then ''application/pdf''
      else ''application/vnd.openxmlformats-officedocument.wordprocessingml.document'')"

definition upload_to_s3 :: "env \<Rightarrow> string \<Rightarrow> string \<Rightarrow> world \<Rightarrow> (bool \<times> string) \<times> world" where
  "upload_to_s3 e lp s3_uri w =
     (case parse_s3_uri (check_netloc e) s3_uri of
        Inl err \<Rightarrow> ((False, str_exception err), w)
      | Inr (bucket, key) \<Rightarrow>
          if \<not> file_exists w lp then ((False, ''Local file does not exist: '' @ lp), w)
          else
            (case client_failure e of
               Some f \<Rightarrow> ((False, upload_failure_message s3_uri f), w)
             | None \<Rightarrow>
                 (let content_type = upload_content_type lp
                  in case s3_upload_file e bucket key of
                       Some f \<Rightarrow>
                         ((False, upload_failure_message s3_uri f),
                          log (S3_upload lp bucket key content_type False) w)
                     | None \<Rightarrow>
                         ((True, ''Uploaded to '' @ s3_uri),
                          log (S3_upload lp bucket key content_type True) w))))"

section \<open>\<open>utils/file_utils.py\<close>: \<open>ensure_docx_extension\<close>\<close>

definition ensure_docx_extension :: "string \<Rightarrow> string" where
  "ensure_docx_extension filename =
     (if is_s3_uri filename
      then (if \<not> endswith filename ''.docx'' then filename @ ''.docx'' else filename)
      else (if \<not> endswith filename ''.docx'' then filename @ ''.docx'' else filename))"

section \<open>\<open>utils/file_utils.py\<close>: the context manager \<open>S3FileContext\<close>\<close>

record s3_file_context =
  original_path :: string
  is_s3 :: bool
  read_only :: bool
  local_path :: "string option"
  temp_file :: "string option"
  output_temp_file :: "string option"
  output_local_path :: "string option"
  output_s3_uri :: "string option"

definition generate_versioned_path :: "env \<Rightarrow> string \<Rightarrow> string" where
  "generate_versioned_path e s3_uri =
     (let (base, ext) = splitext s3_uri;
          timestamp = time_now e
      in base @ ''_edited_'' @ str_int timestamp @ ext)"

definition S3FileContext_init :: "env \<Rightarrow> string \<Rightarrow> bool \<Rightarrow> string option \<Rightarrow> s3_file_context" where
  "S3FileContext_init e filename ro given_output =
     \<lparr>original_path = filename,
      is_s3 = is_s3_uri filename,
      read_only = ro,
      local_path = None,
      temp_file = None,
      output_temp_file = None,
      output_local_path = None,
      output_s3_uri =
        (if truthy given_output then given_output
         else if is_s3_uri filename \<and> \<not> ro then Some (generate_versioned_path e filename)
         else None)\<rparr>"

text \<open>
  \<open>__enter__\<close> returns the context, or raises.  Its first half resolves the input,
  its second half prepares the output working file.
\<close>

definition enter_input ::
  "env \<Rightarrow> s3_file_context \<Rightarrow> world \<Rightarrow> (py_exception + s3_file_context) \<times> world" where
  "enter_input e ctx w =
     (if is_s3 ctx
      then (let ((success, message, lp), w1) = download_from_s3 e (original_path ctx) None w
            in if \<not> success
               then (Inl (IOError (''Failed to download from S3: '' @ message)), w1)
               else (Inr (ctx\<lparr>local_path := lp, temp_file := lp\<rparr>), w1))
      else (Inr (ctx\<lparr>local_path := Some (original_path ctx)\<rparr>), w))"

definition enter_output ::
  "s3_file_context \<Rightarrow> world \<Rightarrow> (py_exception + s3_file_context) \<times> world" where
  "enter_output ctx w =
     (case output_s3_uri ctx of
        None \<Rightarrow> (Inr (ctx\<lparr>output_local_path := local_path ctx\<rparr>), w)
      | Some uri \<Rightarrow>
          if uri = [] then (Inr (ctx\<lparr>output_local_path := local_path ctx\<rparr>), w)
          else
            (let ext = snd (splitext uri);
                 (olp, w1) = mkstemp (if ext \<noteq> [] then ext else ''.docx'') w;
                 ctx1 = ctx\<lparr>output_local_path := Some olp, output_temp_file := Some olp\<rparr>
             in case local_path ctx1 of
                  None \<Rightarrow> (Inr ctx1, w1)
                | Some lp \<Rightarrow>
                    if is_s3 ctx1 \<and> lp \<noteq> []
                    then (case copy2 lp olp w1 of
                            (Some err, w2) \<Rightarrow> (Inl err, w2)
                          | (None, w2) \<Rightarrow> (Inr (ctx1\<lparr>local_path := Some olp\<rparr>), w2))
                    else (Inr ctx1, w1)))"

definition S3FileContext_enter ::
  "env \<Rightarrow> s3_file_context \<Rightarrow> world \<Rightarrow> (py_exception + s3_file_context) \<times> world" where
  "S3FileContext_enter e ctx w =
     (case enter_input e ctx w of
        (Inl err, w1) \<Rightarrow> (Inl err, w1)
      | (Inr ctx1, w1) \<Rightarrow> enter_output ctx1 w1)"

text \<open>
  \<open>__exit__\<close>: the \<open>try\<close> block uploads, the \<open>finally\<close> block deletes the temporary
  files; the exception of the \<open>try\<close> block, if any, leaves the method after the
  \<open>finally\<close> block has run.  \<open>exc_is_none\<close> is the test \<open>exc_type is None\<close>.
\<close>

definition exit_upload ::
  "env \<Rightarrow> s3_file_context \<Rightarrow> bool \<Rightarrow> world \<Rightarrow> py_exception option \<times> world" where
  "exit_upload e ctx exc_is_none w =
     (if exc_is_none \<and> \<not> read_only ctx
      then (case output_s3_uri ctx of
              None \<Rightarrow> (None, w)
            | Some uri \<Rightarrow>
                if uri = [] then (None, w)
                else (case output_local_path ctx of
                        None \<Rightarrow> (Some (TypeError ''expected str, bytes or os.PathLike object''), w)
                      | Some olp \<Rightarrow>
                          if file_exists w olp
                          then (let ((success, message), w1) = upload_to_s3 e olp uri w
                                in if \<not> success
                                   then (Some (IOError (''Failed to upload to S3: '' @ message)), w1)
                                   else (None, w1))
                          else (None, w)))
      else (None, w))"

definition exit_cleanup :: "s3_file_context \<Rightarrow> world \<Rightarrow> world" where
  "exit_cleanup ctx w =
     (let w1 = (case temp_file ctx of
                  None \<Rightarrow> w
                | Some t \<Rightarrow> if t \<noteq> [] \<and> file_exists w t then unlink t w else w)
      in case output_temp_file ctx of
           None \<Rightarrow> w1
         | Some t \<Rightarrow>
             if t \<noteq> [] \<and> output_temp_file ctx \<noteq> temp_file ctx \<and> file_exists w1 t
             then unlink t w1 else w1)"

definition S3FileContext_exit ::
  "env \<Rightarrow> s3_file_context \<Rightarrow> bool \<Rightarrow> world \<Rightarrow> py_exception option \<times> world" where
  "S3FileContext_exit e ctx exc_is_none w =
     (let (raised, w1) = exit_upload e ctx exc_is_none w
      in (raised, exit_cleanup ctx w1))"

definition get_result_path :: "s3_file_context \<Rightarrow> string" where
  "get_result_path ctx =
     (case output_s3_uri ctx of
        None \<Rightarrow> original_path ctx
      | Some uri \<Rightarrow> if uri \<noteq> [] then uri else original_path ctx)"

text \<open>
  One session: \<open>with S3FileContext(filename, read_only, output_s3_uri) as ctx: body\<close>.
  The body works on the local files and either finishes or raises.  When \<open>__enter__\<close>
  raises, Python does not call \<open>__exit__\<close>.  \<open>__exit__\<close> returns \<open>False\<close>, so an
  exception of the body leaves the statement.
\<close>

type_synonym session_body =
  "s3_file_context \<Rightarrow> (string \<times> contents) list \<Rightarrow> py_exception option \<times> (string \<times> contents) list"

definition with_S3FileContext ::
  "env \<Rightarrow> string \<Rightarrow> bool \<Rightarrow> string option \<Rightarrow> session_body \<Rightarrow> world
     \<Rightarrow> (py_exception + s3_file_context) \<times> world" where
  "with_S3FileContext e filename ro given_output body w =
     (case S3FileContext_enter e (S3FileContext_init e filename ro given_output) w of
        (Inl err, w1) \<Rightarrow> (Inl err, w1)
      | (Inr ctx, w1) \<Rightarrow>
          (let (body_exc, fs) = body ctx (files w1);
               (exit_exc, w2) = S3FileContext_exit e ctx (body_exc = None) (w1\<lparr>files := fs\<rparr>)
           in case exit_exc of
                Some err \<Rightarrow> (Inl err, w2)
              | None \<Rightarrow> (case body_exc of Some err \<Rightarrow> (Inl err, w2) | None \<Rightarrow> (Inr ctx, w2))))"

section \<open>\<open>utils/file_utils.py\<close>: \<open>check_file_writeable\<close>\<close>

definition check_file_writeable :: "env \<Rightarrow> world \<Rightarrow> string \<Rightarrow> bool \<times> string" where
  "check_file_writeable e w filepath =
     (if \<not> file_exists w filepath
      then (let directory = (if dirname filepath = [] then ''.'' else dirname filepath)
            in if \<not> directory_exists e directory
               then (False, ''Directory '' @ directory @ '' does not exist'')
               else if \<not> access_w_ok e directory
               then (False, ''Directory '' @ directory @ '' is not writeable'')
               else (True, []))
      else if \<not> access_w_ok e filepath
      then (False, ''File '' @ filepath @ '' is not writeable (permission denied)'')
      else (case open_append_failure e filepath of
              None \<Rightarrow> (True, [])
            | Some (IOError m) \<Rightarrow> (False, ''File '' @ filepath @ '' is not writeable: '' @ m)
            | Some err \<Rightarrow>
                (False, ''Unknown error checking file permissions: '' @ str_exception err)))"

section \<open>\<open>tools/document_tools.py\<close>: \<open>merge_documents\<close>\<close>

text \<open>
  The function returns a message; \<open>merge_outcome\<close> names the \<open>return\<close> statement
  taken and \<open>outcome_message\<close> gives its text.
\<close>

datatype merge_outcome =
    Cannot_create string
  | Download_failed string string
  | Source_missing string
  | Upload_failed string
  | Merge_failed string
  | Merged nat string

definition outcome_message :: "merge_outcome \<Rightarrow> string" where
  "outcome_message r =
     (case r of
        Cannot_create m \<Rightarrow> ''Cannot create target document: '' @ m
      | Download_failed f m \<Rightarrow> ''Failed to download '' @ f @ '' from S3: '' @ m
      | Source_missing f \<Rightarrow> ''Source document '' @ f @ '' does not exist''
      | Upload_failed m \<Rightarrow> ''Failed to upload merged document to S3: '' @ m
      | Merge_failed m \<Rightarrow> ''Failed to merge documents: '' @ m
      | Merged n t \<Rightarrow>
          ''Successfully merged '' @ str_int (int n) @ '' documents into '' @ t)"

text \<open>
  The first loop resolves the sources.  \<open>download_from_s3\<close> returns a path whenever
  it reports success (lemma \<open>download_success_path\<close>), so \<open>path_of\<close> never meets
  \<open>None\<close> there.
\<close>

definition path_of :: "string option \<Rightarrow> string" where
  "path_of lp = (case lp of None \<Rightarrow> [] | Some p \<Rightarrow> p)"

fun resolve_sources ::
  "env \<Rightarrow> string list \<Rightarrow> string list \<Rightarrow> string list \<Rightarrow> world
     \<Rightarrow> (merge_outcome + string list) \<times> string list \<times> world" where
  "resolve_sources e [] local_sources temp_files w = (Inr local_sources, temp_files, w)"
| "resolve_sources e (filename # rest) local_sources temp_files w =
     (let doc_filename = ensure_docx_extension filename
      in if is_s3_uri doc_filename
         then (let ((success, message, lp), w1) = download_from_s3 e doc_filename None w
               in if \<not> success
                  then (Inl (Download_failed doc_filename message), temp_files, w1)
                  else resolve_sources e rest (local_sources @ [path_of lp])
                         (temp_files @ [path_of lp]) w1)
         else if \<not> file_exists w doc_filename
         then (Inl (Source_missing doc_filename), temp_files, w)
         else resolve_sources e rest (local_sources @ [doc_filename]) temp_files w)"

text \<open>
  The document library.  \<open>Document(path)\<close> raises when the file is missing or is not
  a document; \<open>add_page_break\<close> appends a paragraph holding a page break;
  \<open>add_paragraph(text)\<close> appends a paragraph with one run when the text is not empty
  and none otherwise.
\<close>

definition open_document :: "env \<Rightarrow> world \<Rightarrow> string \<Rightarrow> string + source_document" where
  "open_document e w p =
     (case map_of (files w) p of
        None \<Rightarrow> Inl (''Package not found at '' @ p)
      | Some c \<Rightarrow> load_document e c)"

definition add_page_break :: "block list \<Rightarrow> block list" where
  "add_page_break target_doc = target_doc @ [Page_break]"

definition plain_run :: source_run where
  "plain_run = \<lparr>bold = None, italic = None, underline = None, font_size = None\<rparr>"

definition copy_run :: "source_run \<Rightarrow> source_run \<Rightarrow> source_run" where
  "copy_run run new_run =
     (let r = new_run\<lparr>bold := bold run, italic := italic run, underline := underline run\<rparr>
      in case font_size run of
           None \<Rightarrow> r
         | Some sz \<Rightarrow> if sz \<noteq> 0 then r\<lparr>font_size := Some sz\<rparr> else r)"

fun copy_run_formatting :: "source_run list \<Rightarrow> source_run list \<Rightarrow> source_run list" where
  "copy_run_formatting [] new = new"
| "copy_run_formatting (run # rs) [] = []"
| "copy_run_formatting (run # rs) (new_run # ns) = copy_run run new_run # copy_run_formatting rs ns"

definition copy_paragraph :: "env \<Rightarrow> block list \<Rightarrow> source_paragraph \<Rightarrow> block list" where
  "copy_paragraph e target_doc paragraph =
     (let new_paragraph =
            \<lparr>new_text = para_text paragraph,
             new_style = ''Normal'',
             new_runs = (if para_text paragraph = [] then [] else [plain_run])\<rparr>;
          styled =
            (case style_name paragraph of
               None \<Rightarrow> new_paragraph
             | Some n \<Rightarrow>
                 if n \<in> set (template_styles e) then new_paragraph\<lparr>new_style := n\<rparr>
                 else new_paragraph)
      in target_doc @
         [Paragraph (styled\<lparr>new_runs := copy_run_formatting (runs paragraph) (new_runs styled)\<rparr>)])"

text \<open>
  Modelled from the spec: \<open>copy_table\<close> of \<open>core/tables.py\<close>, which is not among the
  source files.  The spec has each source's tables copied with their structure and cell
  text and appended to the target in source order.
\<close>

definition copy_table :: "string list list \<Rightarrow> block list \<Rightarrow> block list" where
  "copy_table table target_doc = target_doc @ [Table table]"

text \<open>The body of the second loop, for the source at index \<open>i\<close>.\<close>

definition merge_one :: "env \<Rightarrow> bool \<Rightarrow> nat \<Rightarrow> source_document \<Rightarrow> block list \<Rightarrow> block list" where
  "merge_one e add_page_breaks i source_doc target_doc =
     (let d1 = (if add_page_breaks \<and> i > 0 then add_page_break target_doc else target_doc);
          d2 = foldl (copy_paragraph e) d1 (paragraphs source_doc)
      in foldl (\<lambda>d table. copy_table table d) d2 (tables source_doc))"

fun merge_sources ::
  "env \<Rightarrow> world \<Rightarrow> bool \<Rightarrow> nat \<Rightarrow> string list \<Rightarrow> block list \<Rightarrow> string + block list" where
  "merge_sources e w add_page_breaks i [] target_doc = Inr target_doc"
| "merge_sources e w add_page_breaks i (local_source # rest) target_doc =
     (case open_document e w local_source of
        Inl m \<Rightarrow> Inl m
      | Inr source_doc \<Rightarrow>
          merge_sources e w add_page_breaks (Suc i) rest
            (merge_one e add_page_breaks i source_doc target_doc))"

definition save_document :: "env \<Rightarrow> string \<Rightarrow> block list \<Rightarrow> world \<Rightarrow> string option \<times> world" where
  "save_document e p doc w =
     (case save_failure e p of
        Some m \<Rightarrow> (Some m, w)
      | None \<Rightarrow> (None, log (Save p doc) (write_file p (Saved_docx doc) w)))"

fun cleanup_temp_files :: "string list \<Rightarrow> world \<Rightarrow> world" where
  "cleanup_temp_files [] w = w"
| "cleanup_temp_files (t # ts) w =
     cleanup_temp_files ts (if t \<noteq> [] \<and> file_exists w t then unlink t w else w)"

text \<open>The target file: a temporary file when the target is remote.\<close>

definition create_target_file :: "string \<Rightarrow> string list \<Rightarrow> world \<Rightarrow> string \<times> string list \<times> world" where
  "create_target_file target temp_files w =
     (if is_s3_uri target
      then (let (p, w') = mkstemp ''.docx'' w in (p, temp_files @ [p], w'))
      else (target, temp_files, w))"

text \<open>
  The part of the \<open>try\<close> block after the sources are resolved: it returns the outcome,
  the list \<open>temp_files\<close> as it stands when the block is left, and the world.
\<close>

definition merge_resolved ::
  "env \<Rightarrow> string \<Rightarrow> nat \<Rightarrow> bool \<Rightarrow> string list \<Rightarrow> string list \<Rightarrow> world
     \<Rightarrow> merge_outcome \<times> string list \<times> world" where
  "merge_resolved e target n add_page_breaks local_sources temp_files w =
     (let (local_target, temp_files1, w1) = create_target_file target temp_files w
      in case merge_sources e w1 add_page_breaks 0 local_sources [] of
           Inl m \<Rightarrow> (Merge_failed m, temp_files1, w1)
         | Inr target_doc \<Rightarrow>
             (case save_document e local_target target_doc w1 of
                (Some m, w2) \<Rightarrow> (Merge_failed m, temp_files1, w2)
              | (None, w2) \<Rightarrow>
                  if is_s3_uri target
                  then (let ((success, message), w3) = upload_to_s3 e local_target target w2
                        in if \<not> success then (Upload_failed message, temp_files1, w3)
                           else (Merged n target, temp_files1, w3))
                  else (Merged n target, temp_files1, w2)))"

definition merge_documents ::
  "env \<Rightarrow> string \<Rightarrow> string list \<Rightarrow> bool \<Rightarrow> world \<Rightarrow> merge_outcome \<times> world" where
  "merge_documents e target_filename source_filenames add_page_breaks w =
     (let target = ensure_docx_extension target_filename;
          target_is_s3 = is_s3_uri target;
          (is_writeable, error_message) =
            (if \<not> target_is_s3 then check_file_writeable e w target else (True, []))
      in if \<not> is_writeable then (Cannot_create error_message, w)
         else
           (case resolve_sources e source_filenames [] [] w of
              (Inl failure, temp_files, w1) \<Rightarrow> (failure, cleanup_temp_files temp_files w1)
            | (Inr local_sources, temp_files, w1) \<Rightarrow>
                (let (r, temp_files1, w2) =
                       merge_resolved e target (length source_filenames) add_page_breaks
                         local_sources temp_files w1
                 in (r, cleanup_temp_files temp_files1 w2))))"

section \<open>Observations on a trace, and a sample environment\<close>

definition is_upload :: "event \<Rightarrow> bool" where
  "is_upload ev = (case ev of S3_upload lp bucket key ct ok \<Rightarrow> True | _ \<Rightarrow> False)"

definition is_save :: "event \<Rightarrow> bool" where
  "is_save ev = (case ev of Save p doc \<Rightarrow> True | _ \<Rightarrow> False)"

definition uploads :: "world \<Rightarrow> event list" where
  "uploads w = filter is_upload (trace w)"

definition saves :: "world \<Rightarrow> event list" where
  "saves w = filter is_save (trace w)"

text \<open>
  What one source contributes to the merged document: its paragraphs, then its tables.
\<close>

definition copied :: "env \<Rightarrow> source_document \<Rightarrow> block list" where
  "copied e source_doc =
     foldl (\<lambda>d table. copy_table table d)
       (foldl (copy_paragraph e) [] (paragraphs source_doc)) (tables source_doc)"

text \<open>
  The upload of an existing local file to \<open>s3_uri\<close> is refused when the address does
  not parse, when no client can be made, or when the store rejects the request
  (lemma \<open>upload_fails_iff\<close>).
\<close>

definition upload_refused :: "env \<Rightarrow> string \<Rightarrow> bool" where
  "upload_refused e s3_uri =
     (case parse_s3_uri (check_netloc e) s3_uri of
        Inl err \<Rightarrow> True
      | Inr (bucket, key) \<Rightarrow> client_failure e \<noteq> None \<or> s3_upload_file e bucket key \<noteq> None)"

text \<open>
  The layout the spec gives the merged document: the parts in order, with a page
  break before every part after the first when page breaks are asked for.
\<close>

definition merged_layout :: "bool \<Rightarrow> block list list \<Rightarrow> block list" where
  "merged_layout add_page_breaks parts =
     (case parts of
        [] \<Rightarrow> []
      | first_part # later \<Rightarrow>
          first_part @
          concat (map (\<lambda>part. (if add_page_breaks then [Page_break] else []) @ part) later))"

text \<open>
  What a source locator stands for when the merge reads it: for a remote locator the
  object the store returns for its bucket and key, for a local one the file at that
  path; and the document the library reads from it.  \<open>merge_world\<close> is the file system
  in which \<open>merge_documents\<close> opens its sources, after all of them are resolved and the
  target file is made, and \<open>merge_target_path\<close> the path the merged document is saved to.
\<close>

definition source_contents :: "env \<Rightarrow> world \<Rightarrow> string \<Rightarrow> contents option" where
  "source_contents e w filename =
     (let doc_filename = ensure_docx_extension filename
      in if is_s3_uri doc_filename
         then (case parse_s3_uri (check_netloc e) doc_filename of
                 Inl err \<Rightarrow> None
               | Inr (bucket, key) \<Rightarrow>
                   (case s3_download_file e bucket key of Inl f \<Rightarrow> None | Inr c \<Rightarrow> Some c))
         else map_of (files w) doc_filename)"

definition source_document :: "env \<Rightarrow> world \<Rightarrow> string \<Rightarrow> string + source_document" where
  "source_document e w filename =
     (case source_contents e w filename of
        None \<Rightarrow> Inl ''no such source''
      | Some c \<Rightarrow> load_document e c)"

definition merge_world :: "env \<Rightarrow> string \<Rightarrow> string list \<Rightarrow> world \<Rightarrow> world" where
  "merge_world e target_filename source_filenames w =
     (let (r, temp_files, w1) = resolve_sources e source_filenames [] [] w
      in snd (snd (create_target_file (ensure_docx_extension target_filename) temp_files w1)))"

definition merge_target_path :: "env \<Rightarrow> string \<Rightarrow> string list \<Rightarrow> world \<Rightarrow> string" where
  "merge_target_path e target_filename source_filenames w =
     (let (r, temp_files, w1) = resolve_sources e source_filenames [] [] w
      in fst (create_target_file (ensure_docx_extension target_filename) temp_files w1))"

definition is_merged :: "merge_outcome \<Rightarrow> bool" where
  "is_merged r = (case r of Merged n t \<Rightarrow> True | _ \<Rightarrow> False)"

text \<open>
  When resolving a source fails, and with which outcome: for a remote locator, when
  the address does not parse, no client can be made or the store fails the request
  (\<open>download_refusal\<close> gives the message); for a local one, when no file is at its
  path.
\<close>

definition download_refusal :: "env \<Rightarrow> string \<Rightarrow> string option" where
  "download_refusal e s3_uri =
     (case parse_s3_uri (check_netloc e) s3_uri of
        Inl err \<Rightarrow> Some (str_exception err)
      | Inr (bucket, key) \<Rightarrow>
          (case client_failure e of
             Some f \<Rightarrow> Some (download_failure_message s3_uri f)
           | None \<Rightarrow>
               (case s3_download_file e bucket key of
                  Inl f \<Rightarrow> Some (download_failure_message s3_uri f)
                | Inr c \<Rightarrow> None)))"

definition source_failure :: "env \<Rightarrow> world \<Rightarrow> string \<Rightarrow> merge_outcome option" where
  "source_failure e w filename =
     (let doc_filename = ensure_docx_extension filename
      in if is_s3_uri doc_filename
         then (case download_refusal e doc_filename of
                 None \<Rightarrow> None
               | Some m \<Rightarrow> Some (Download_failed doc_filename m))
         else if \<not> file_exists w doc_filename then Some (Source_missing doc_filename)
         else None)"

text \<open>
  A call that went from \<open>w\<close> to \<open>w'\<close> with outcome \<open>r\<close> has aborted when \<open>r\<close> is not the
  success message, the call made no upload call and saved no document, and every file
  that a successful download of the call wrote is gone in \<open>w'\<close>.
\<close>

definition new_events :: "world \<Rightarrow> world \<Rightarrow> event list" where
  "new_events w w' = drop (length (trace w)) (trace w')"

definition merge_aborted :: "world \<Rightarrow> merge_outcome \<times> world \<Rightarrow> bool" where
  "merge_aborted w rw =
     (\<not> is_merged (fst rw) \<and> uploads (snd rw) = uploads w \<and> saves (snd rw) = saves w \<and>
      (\<forall>bucket key p. S3_download bucket key p True \<in> set (new_events w (snd rw))
           \<longrightarrow> \<not> file_exists (snd rw) p))"

text \<open>
  A sample environment for concrete runs: the clock stands at 1733318400, every
  object exists, every request succeeds, and the bytes numbered 0 read as a document
  with the paragraph \<open>Alpha\<close>, all others as one with the paragraph \<open>Beta\<close>.
\<close>

definition sample_document :: "nat \<Rightarrow> source_document" where
  "sample_document n =
     \<lparr>paragraphs = [\<lparr>para_text = (if n = 0 then ''Alpha'' else ''Beta''),
                     style_name = Some ''Normal'',
                     runs = [\<lparr>bold = Some True, italic = None, underline = None,
                              font_size = None\<rparr>]\<rparr>],
      tables = []\<rparr>"

definition sample_env :: env where
  "sample_env =
     \<lparr>check_netloc = (\<lambda>h. None),
      time_now = 1733318400,
      client_failure = None,
      s3_download_file = (\<lambda>bucket key. Inr (Object_bytes 0)),
      s3_upload_file = (\<lambda>bucket key. None),
      directory_exists = (\<lambda>d. True),
      access_w_ok = (\<lambda>p. True),
      open_append_failure = (\<lambda>p. None),
      load_document =
        (\<lambda>c. case c of Object_bytes n \<Rightarrow> Inr (sample_document n)
              | _ \<Rightarrow> Inl ''File is not a zip file''),
      save_failure = (\<lambda>p. None),
      template_styles = [''Normal'']\<rparr>"

definition empty_world :: world where
  "empty_world = \<lparr>files = [], trace = []\<rparr>"

definition two_local_files :: world where
  "two_local_files =
     \<lparr>files = [(''a.docx'', Object_bytes 0), (''b.docx'', Object_bytes 2)], trace = []\<rparr>"

definition denying_env :: env where
  "denying_env = sample_env\<lparr>s3_upload_file := (\<lambda>bucket key. Some (ClientError ''403'' ''Forbidden''))\<rparr>"

definition missing_object_env :: env where
  "missing_object_env =
     sample_env\<lparr>s3_download_file := (\<lambda>bucket key. Inl (ClientError ''404'' ''Not Found''))\<rparr>"

definition removing_body :: session_body where
  "removing_body ctx fs = (None, AList.delete (path_of (local_path ctx)) fs)"

definition one_object_env :: env where
  "one_object_env =
     sample_env\<lparr>s3_download_file :=
       (\<lambda>bucket key. if key = ''a.docx'' then Inr (Object_bytes 0)
                      else Inl (ClientError ''404'' ''Not Found''))\<rparr>"

definition idle_body :: session_body where
  "idle_body ctx fs = (None, fs)"

section \<open>Effects of the primitives on the trace and on the files\<close>

lemma uploads_log: "uploads (log ev w) = uploads w @ (if is_upload ev then [ev] else [])"
  by (simp add: uploads_def log_def)

lemma saves_log: "saves (log ev w) = saves w @ (if is_save ev then [ev] else [])"
  by (simp add: saves_def log_def)

lemma uploads_write_file: "uploads (write_file p c w) = uploads w"
  by (simp add: uploads_def write_file_def)

lemma saves_write_file: "saves (write_file p c w) = saves w"
  by (simp add: saves_def write_file_def)

lemma uploads_unlink: "uploads (unlink p w) = uploads w"
  by (simp add: unlink_def uploads_log is_upload_def) (simp add: uploads_def)

lemma saves_unlink: "saves (unlink p w) = saves w"
  by (simp add: unlink_def saves_log is_save_def) (simp add: saves_def)

lemma uploads_mkstemp: "uploads (snd (mkstemp suffix w)) = uploads w"
  by (simp add: mkstemp_def Let_def uploads_log uploads_write_file is_upload_def)

lemma saves_mkstemp: "saves (snd (mkstemp suffix w)) = saves w"
  by (simp add: mkstemp_def Let_def saves_log saves_write_file is_save_def)

lemma uploads_copy2: "uploads (snd (copy2 src dst w)) = uploads w"
  by (simp add: copy2_def uploads_log uploads_write_file is_upload_def split: option.splits)

lemma uploads_download: "uploads (snd (download_from_s3 e u g w)) = uploads w"
  by (auto simp: download_from_s3_def Let_def uploads_log uploads_write_file uploads_mkstemp
      is_upload_def split_beta split: sum.splits option.splits prod.splits)

lemma saves_download: "saves (snd (download_from_s3 e u g w)) = saves w"
  by (auto simp: download_from_s3_def Let_def saves_log saves_write_file saves_mkstemp
      is_save_def split_beta split: sum.splits option.splits prod.splits)

lemma saves_upload: "saves (snd (upload_to_s3 e lp u w)) = saves w"
  by (auto simp: upload_to_s3_def Let_def saves_log is_save_def split: sum.splits option.splits prod.splits)

lemma uploads_cleanup: "uploads (cleanup_temp_files ts w) = uploads w"
  by (induction ts arbitrary: w) (simp_all add: uploads_unlink)

lemma saves_cleanup: "saves (cleanup_temp_files ts w) = saves w"
  by (induction ts arbitrary: w) (simp_all add: saves_unlink)

lemma uploads_exit_cleanup: "uploads (exit_cleanup ctx w) = uploads w"
  by (simp add: exit_cleanup_def Let_def uploads_unlink split: option.splits)

lemma uploads_enter_input: "uploads (snd (enter_input e ctx w)) = uploads w"
  using uploads_download [of e "original_path ctx" None w]
  by (simp add: enter_input_def Let_def split_beta)

lemma uploads_enter_output: "uploads (snd (enter_output ctx w)) = uploads w"
  using uploads_mkstemp uploads_copy2
  by (auto simp: enter_output_def Let_def split_beta split: option.splits prod.splits)

lemma uploads_enter: "uploads (snd (S3FileContext_enter e ctx w)) = uploads w"
  using uploads_enter_input [of e ctx w] uploads_enter_output
  by (auto simp: S3FileContext_enter_def split: prod.splits sum.splits)

lemma file_exists_unlink: "file_exists (unlink p w) q = (q \<noteq> p \<and> file_exists w q)"
  by (auto simp: unlink_def log_def file_exists_def delete_conv')

lemma cleanup_keeps_absent: "\<not> file_exists w q \<Longrightarrow> \<not> file_exists (cleanup_temp_files ts w) q"
  by (induction ts arbitrary: w) (simp_all add: file_exists_unlink)

lemma cleanup_removes:
  "p \<in> set ts \<Longrightarrow> p \<noteq> [] \<Longrightarrow> \<not> file_exists (cleanup_temp_files ts w) p"
proof (induction ts arbitrary: w)
  case Nil
  then show ?case by simp
next
  case (Cons t ts)
  show ?case
  proof (cases "p = t")
    case True
    then have "\<not> file_exists (if t \<noteq> [] \<and> file_exists w t then unlink t w else w) p"
      using Cons.prems by (simp add: file_exists_unlink)
    then show ?thesis by (simp add: cleanup_keeps_absent)
  next
    case False
    then have "p \<in> set ts" using Cons.prems by simp
    from Cons.IH [OF this Cons.prems(2)] show ?thesis by simp
  qed
qed

lemma mkstemp_nonempty: "fst (mkstemp suffix w) \<noteq> []"
  by (simp add: mkstemp_def Let_def)

lemma download_success_path:
  "download_from_s3 e u None w = ((True, m, lp), w1) \<Longrightarrow> \<exists>p. lp = Some p \<and> p \<noteq> []"
  using mkstemp_nonempty
  by (auto simp: download_from_s3_def Let_def split_beta split: sum.splits option.splits prod.splits)

lemma longest_path_bound: "(p, c) \<in> set fs \<Longrightarrow> length p \<le> longest_path fs"
  by (induction fs) (auto simp: longest_path_def)

lemma mkstemp_fresh: "\<not> file_exists w (fst (mkstemp suffix w))"
proof
  assume "file_exists w (fst (mkstemp suffix w))"
  then obtain c where "(fst (mkstemp suffix w), c) \<in> set (files w)"
    by (auto simp: file_exists_def dest: map_of_SomeD)
  from longest_path_bound [OF this] show False
    by (simp add: mkstemp_def Let_def)
qed

section \<open>Properties of \<open>ensure_docx_extension\<close>\<close>

lemma endswith_append: "endswith (s @ p) p"
  by (simp add: endswith_def)

text \<open>
  Claim C10.  For every input string, local path or \<open>s3://\<close> URI alike, the result of
  \<open>ensure_docx_extension\<close> ends with \<open>.docx\<close>, and applying the function a second
  time changes nothing.
\<close>

theorem ensure_docx_extension_idempotent:
  "endswith (ensure_docx_extension s) ''.docx'' \<and>
   ensure_docx_extension (ensure_docx_extension s) = ensure_docx_extension s"
proof -
  have e: "endswith (ensure_docx_extension s) ''.docx''"
    unfolding ensure_docx_extension_def using endswith_append [of s "''.docx''"] by simp
  have "ensure_docx_extension t = t" if "endswith t ''.docx''" for t
    using that unfolding ensure_docx_extension_def by simp
  from this [OF e] e show ?thesis by simp
qed

section \<open>Sessions of \<open>S3FileContext\<close>\<close>

lemma uploads_exit_read_only:
  "read_only ctx \<Longrightarrow> uploads (snd (S3FileContext_exit e ctx b w)) = uploads w"
  by (simp add: S3FileContext_exit_def exit_upload_def uploads_exit_cleanup)

lemma read_only_enter_input:
  "enter_input e ctx w = (Inr ctx1, w1) \<Longrightarrow> read_only ctx1 = read_only ctx"
  by (auto simp: enter_input_def Let_def split_beta split: if_splits)

lemma read_only_enter_output:
  "enter_output ctx w = (Inr ctx1, w1) \<Longrightarrow> read_only ctx1 = read_only ctx"
  by (auto simp: enter_output_def Let_def split_beta split: if_splits option.splits prod.splits)

lemma read_only_enter:
  "S3FileContext_enter e ctx w = (Inr ctx1, w1) \<Longrightarrow> read_only ctx1 = read_only ctx"
  by (auto simp: S3FileContext_enter_def split: prod.splits sum.splits
      dest: read_only_enter_input read_only_enter_output)

lemma uploads_files_update: "uploads (w\<lparr>files := fs\<rparr>) = uploads w"
  by (simp add: uploads_def)

text \<open>
  Claim C5.  A session opened read-only makes no upload call, whatever the body does
  to the local files and whether the source is remote or local: the upload calls on
  the trace after the session are those before it.
\<close>

theorem read_only_session_never_uploads:
  "uploads (snd (with_S3FileContext e filename True given_output body w)) = uploads w"
proof (cases "S3FileContext_enter e (S3FileContext_init e filename True given_output) w")
  case (Pair r w1)
  have u1: "uploads w1 = uploads w"
    using uploads_enter [of e "S3FileContext_init e filename True given_output" w] Pair by simp
  show ?thesis
  proof (cases r)
    case (Inl err)
    with Pair u1 show ?thesis by (simp add: with_S3FileContext_def)
  next
    case (Inr ctx)
    with Pair have "read_only ctx = read_only (S3FileContext_init e filename True given_output)"
      using read_only_enter by blast
    then have ro: "read_only ctx" by (simp add: S3FileContext_init_def)
    obtain body_exc fs where b: "body ctx (files w1) = (body_exc, fs)" by (cases "body ctx (files w1)")
    obtain exit_exc w2 where x: "S3FileContext_exit e ctx (body_exc = None) (w1\<lparr>files := fs\<rparr>) = (exit_exc, w2)"
      by (cases "S3FileContext_exit e ctx (body_exc = None) (w1\<lparr>files := fs\<rparr>)")
    have "uploads w2 = uploads (w1\<lparr>files := fs\<rparr>)"
      using uploads_exit_read_only [OF ro, of e "body_exc = None" "w1\<lparr>files := fs\<rparr>"] x by simp
    then have "uploads w2 = uploads w" using u1 by (simp add: uploads_files_update)
    then show ?thesis using Pair Inr b x
      by (simp add: with_S3FileContext_def split: option.splits)
  qed
qed

text \<open>
  Claim C6.  For a local source opened for reading and writing with no explicit output
  locator, \<open>__enter__\<close> succeeds without touching the world, the working path and
  the output path are the original path, \<open>get_result_path\<close> returns the original path,
  and the whole session changes nothing but what the body does to the files: no
  temporary file is made and no upload call occurs.
\<close>

theorem local_read_write_in_place:
  assumes "\<not> is_s3_uri filename" and "\<not> truthy given_output"
  shows "\<exists>ctx. S3FileContext_enter e (S3FileContext_init e filename False given_output) w = (Inr ctx, w) \<and>
           local_path ctx = Some filename \<and>
           output_local_path ctx = Some filename \<and>
           get_result_path ctx = filename \<and>
           with_S3FileContext e filename False given_output body w =
             (case fst (body ctx (files w)) of None \<Rightarrow> Inr ctx | Some err \<Rightarrow> Inl err,
              w\<lparr>files := snd (body ctx (files w))\<rparr>) \<and>
           uploads (snd (with_S3FileContext e filename False given_output body w)) = uploads w"
proof -
  let ?ctx = "\<lparr>original_path = filename, is_s3 = False, read_only = False,
               local_path = Some filename, temp_file = None, output_temp_file = None,
               output_local_path = Some filename, output_s3_uri = None\<rparr>"
  have i: "S3FileContext_init e filename False given_output =
             \<lparr>original_path = filename, is_s3 = False, read_only = False,
               local_path = None, temp_file = None, output_temp_file = None,
               output_local_path = None, output_s3_uri = None\<rparr>"
    using assms by (simp add: S3FileContext_init_def)
  have en: "S3FileContext_enter e (S3FileContext_init e filename False given_output) w = (Inr ?ctx, w)"
    unfolding i by (simp add: S3FileContext_enter_def enter_input_def enter_output_def)
  have ex: "S3FileContext_exit e ?ctx b w' = (None, w')" for b w'
    by (simp add: S3FileContext_exit_def exit_upload_def exit_cleanup_def)
  have g: "get_result_path ?ctx = filename" by (simp add: get_result_path_def)
  have wi: "with_S3FileContext e filename False given_output body w =
             (case fst (body ?ctx (files w)) of None \<Rightarrow> Inr ?ctx | Some err \<Rightarrow> Inl err,
              w\<lparr>files := snd (body ?ctx (files w))\<rparr>)"
    by (simp add: with_S3FileContext_def en ex split_beta split: option.splits)
  have "uploads (snd (with_S3FileContext e filename False given_output body w)) = uploads w"
    unfolding wi by (simp add: uploads_def)
  with en g wi show ?thesis by auto
qed

theorem local_read_write_in_place_witness:
  "\<exists>ctx. S3FileContext_enter sample_env (S3FileContext_init sample_env ''report.docx'' False None) empty_world = (Inr ctx, empty_world) \<and>
           local_path ctx = Some ''report.docx'' \<and>
           output_local_path ctx = Some ''report.docx'' \<and>
           get_result_path ctx = ''report.docx'' \<and>
           with_S3FileContext sample_env ''report.docx'' False None idle_body empty_world =
             (case fst (idle_body ctx (files empty_world)) of None \<Rightarrow> Inr ctx | Some err \<Rightarrow> Inl err,
              empty_world\<lparr>files := snd (idle_body ctx (files empty_world))\<rparr>) \<and>
           uploads (snd (with_S3FileContext sample_env ''report.docx'' False None idle_body empty_world)) = uploads empty_world"
proof -
  have a: "\<not> is_s3_uri ''report.docx''" by (simp add: is_s3_uri_def startswith_def)
  have b: "\<not> truthy None" by (simp add: truthy_def)
  show ?thesis using local_read_write_in_place [OF a b] by blast
qed

section \<open>The content type of an upload\<close>

text \<open>
  Claim C9, as amended.  Every upload that reaches the store sends
  \<open>application/pdf\<close> when the local path ends with \<open>.pdf\<close> and the content type of
  the document format for every other path; there is no generic binary content type.
\<close>

theorem upload_content_type_by_suffix:
  assumes "parse_s3_uri (check_netloc e) s3_uri = Inr (bucket, key)"
    and "file_exists w lp" and "client_failure e = None"
  shows "\<exists>ok. trace (snd (upload_to_s3 e lp s3_uri w)) =
           trace w @ [S3_upload lp bucket key
             (if endswith lp ''.pdf'' then ''application/pdf''
              else ''application/vnd.openxmlformats-officedocument.wordprocessingml.document'') ok]"
  using assms by (auto simp: upload_to_s3_def upload_content_type_def log_def Let_def split: option.splits)

lemma parse_sample: "parse_s3_uri (check_netloc sample_env) ''s3://b/notes.txt'' = Inr (''b'', ''notes.txt'')"
  by (simp add: sample_env_def parse_s3_uri_def is_s3_uri_def startswith_def urlparse_def unsafe_url_char_def
  split_scheme_def ascii_letters_def scheme_chars_def splitnetloc_def netloc_delim_def
  check_netloc_brackets_def lstrip_def)

theorem upload_content_type_by_suffix_witness:
  "\<exists>ok. trace (snd (upload_to_s3 sample_env ''/data/out.pdf'' ''s3://b/notes.txt''
              \<lparr>files = [(''/data/out.pdf'', Object_bytes 2)], trace = []\<rparr>)) =
           [S3_upload ''/data/out.pdf'' ''b'' ''notes.txt'' ''application/pdf'' ok]"
proof -
  have f: "file_exists \<lparr>files = [(''/data/out.pdf'', Object_bytes 2)], trace = []\<rparr> ''/data/out.pdf''"
    by (simp add: file_exists_def)
  have c: "client_failure sample_env = None" by (simp add: sample_env_def)
  show ?thesis using upload_content_type_by_suffix [OF parse_sample f c]
    by (simp add: endswith_def)
qed

text \<open>
  Claim C9 as stated fails: a file with the unknown extension \<open>.txt\<close> is sent with
  the content type of the document format, not with a generic binary one.
\<close>

theorem unknown_extension_gets_document_type:
  "trace (snd (upload_to_s3 sample_env ''/data/notes.txt'' ''s3://b/notes.txt''
              \<lparr>files = [(''/data/notes.txt'', Object_bytes 2)], trace = []\<rparr>)) =
     [S3_upload ''/data/notes.txt'' ''b'' ''notes.txt''
        ''application/vnd.openxmlformats-officedocument.wordprocessingml.document'' True]"
  using parse_sample
  by (simp add: upload_to_s3_def upload_content_type_def log_def file_exists_def endswith_def sample_env_def)

section \<open>The merge of documents\<close>

lemma copy_paragraph_append: "copy_paragraph e t p = t @ copy_paragraph e [] p"
  by (simp add: copy_paragraph_def Let_def)

lemma copy_paragraph_no_break: "Page_break \<notin> set (copy_paragraph e [] p)"
  by (simp add: copy_paragraph_def Let_def)

lemma foldl_copy_paragraph:
  "foldl (copy_paragraph e) t ps = t @ concat (map (copy_paragraph e []) ps)"
proof (induction ps arbitrary: t)
  case Nil
  then show ?case by simp
next
  case (Cons p ps)
  have "foldl (copy_paragraph e) (copy_paragraph e t p) ps =
          copy_paragraph e t p @ concat (map (copy_paragraph e []) ps)"
    by (rule Cons.IH)
  then show ?case using copy_paragraph_append [of e t p] by simp
qed

lemma foldl_copy_table:
  "foldl (\<lambda>d table. copy_table table d) t ts = t @ map Table ts"
  by (induction ts arbitrary: t) (simp_all add: copy_table_def)

lemma copied_eq:
  "copied e d = concat (map (copy_paragraph e []) (paragraphs d)) @ map Table (tables d)"
  using foldl_copy_paragraph [of e "[]"] by (simp add: copied_def foldl_copy_table)

lemma copied_no_break: "Page_break \<notin> set (copied e d)"
  using copy_paragraph_no_break by (auto simp: copied_eq)

lemma merge_one_eq:
  "merge_one e apb i d t = t @ (if apb \<and> i > 0 then [Page_break] else []) @ copied e d"
  by (simp add: merge_one_def Let_def add_page_break_def copied_eq foldl_copy_table
      foldl_copy_paragraph [of e "t @ [Page_break]"] foldl_copy_paragraph [of e t])

lemma merge_sources_later:
  "merge_sources e w apb (Suc i) ls t = Inr doc \<Longrightarrow>
     \<exists>ds. map (open_document e w) ls = map Inr ds \<and>
          doc = t @ concat (map (\<lambda>part. (if apb then [Page_break] else []) @ part)
                       (map (copied e) ds))"
proof (induction ls arbitrary: i t)
  case Nil
  then show ?case by simp
next
  case (Cons l ls)
  from Cons.prems obtain d where d: "open_document e w l = Inr d"
    and r: "merge_sources e w apb (Suc (Suc i)) ls (merge_one e apb (Suc i) d t) = Inr doc"
    by (auto split: sum.splits)
  from Cons.IH [OF r] obtain ds where ds: "map (open_document e w) ls = map Inr ds"
    and doc: "doc = merge_one e apb (Suc i) d t @
        concat (map (\<lambda>part. (if apb then [Page_break] else []) @ part) (map (copied e) ds))"
    by blast
  have "map (open_document e w) (l # ls) = map Inr (d # ds)" using d ds by simp
  moreover have "doc = t @ concat (map (\<lambda>part. (if apb then [Page_break] else []) @ part)
                       (map (copied e) (d # ds)))"
    using doc by (simp add: merge_one_eq)
  ultimately show ?case by blast
qed

lemma merge_sources_layout:
  "merge_sources e w apb 0 ls [] = Inr doc \<Longrightarrow>
     \<exists>ds. map (open_document e w) ls = map Inr ds \<and>
          doc = merged_layout apb (map (copied e) ds)"
proof (cases ls)
  case Nil
  assume "merge_sources e w apb 0 ls [] = Inr doc"
  with Nil show ?thesis by (simp add: merged_layout_def)
next
  case (Cons l ls')
  assume a: "merge_sources e w apb 0 ls [] = Inr doc"
  with Cons obtain d where d: "open_document e w l = Inr d"
    and r: "merge_sources e w apb (Suc 0) ls' (merge_one e apb 0 d []) = Inr doc"
    by (auto split: sum.splits)
  from merge_sources_later [OF r] obtain ds where ds: "map (open_document e w) ls' = map Inr ds"
    and doc: "doc = merge_one e apb 0 d [] @
        concat (map (\<lambda>part. (if apb then [Page_break] else []) @ part) (map (copied e) ds))"
    by blast
  have "map (open_document e w) ls = map Inr (d # ds)" using Cons d ds by simp
  moreover have "doc = merged_layout apb (map (copied e) (d # ds))"
    using doc by (simp add: merge_one_eq merged_layout_def)
  ultimately show ?thesis by blast
qed

lemma count_breaks_later:
  "\<forall>part \<in> set parts. Page_break \<notin> set part \<Longrightarrow>
   length (filter (\<lambda>b. b = Page_break)
     (concat (map (\<lambda>part. (if apb then [Page_break] else []) @ part) parts)))
   = (if apb then length parts else 0)"
  by (induction parts) (auto simp: filter_empty_conv)

lemma count_breaks_layout:
  "\<forall>part \<in> set parts. Page_break \<notin> set part \<Longrightarrow>
   length (filter (\<lambda>b. b = Page_break) (merged_layout apb parts))
   = (if apb then length parts - 1 else 0)"
  using count_breaks_later [of "tl parts" apb]
  by (cases parts) (auto simp: merged_layout_def filter_empty_conv)

lemma resolve_sources_length:
  "resolve_sources e srcs ls tf w = (Inr ls', tf', w1) \<Longrightarrow> length ls' = length ls + length srcs"
proof (induction srcs arbitrary: ls tf w)
  case Nil
  then show ?case by simp
next
  case (Cons f fs)
  show ?case
  proof (cases "is_s3_uri (ensure_docx_extension f)")
    case True
    obtain success message lp w0 where
      d: "download_from_s3 e (ensure_docx_extension f) None w = ((success, message, lp), w0)"
      by (metis prod_cases3 surj_pair)
    with Cons.prems True have
      "resolve_sources e fs (ls @ [path_of lp]) (tf @ [path_of lp]) w0 = (Inr ls', tf', w1)"
      by (simp add: Let_def split: if_splits)
    from Cons.IH [OF this] show ?thesis by simp
  next
    case False
    with Cons.prems have
      "resolve_sources e fs (ls @ [ensure_docx_extension f]) tf w = (Inr ls', tf', w1)"
      by (simp add: Let_def split: if_splits)
    from Cons.IH [OF this] show ?thesis by simp
  qed
qed

lemma trace_unlink: "trace (unlink p w) = trace w @ [Unlink p]"
  by (simp add: unlink_def log_def)

lemma trace_cleanup_mono: "set (trace w) \<subseteq> set (trace (cleanup_temp_files ts w))"
proof (induction ts arbitrary: w)
  case Nil
  then show ?case by simp
next
  case (Cons t ts)
  have "set (trace w) \<subseteq> set (trace (if t \<noteq> [] \<and> file_exists w t then unlink t w else w))"
    by (auto simp: trace_unlink)
  with Cons.IH show ?case by (simp only: cleanup_temp_files.simps) blast
qed

lemma trace_upload_mono: "set (trace w) \<subseteq> set (trace (snd (upload_to_s3 e lp u w)))"
  by (auto simp: upload_to_s3_def Let_def log_def split: sum.splits option.splits prod.splits)

lemma upload_fails_iff:
  "file_exists w lp \<Longrightarrow> (\<not> fst (fst (upload_to_s3 e lp u w))) = upload_refused e u"
  by (auto simp: upload_to_s3_def upload_refused_def Let_def split: sum.splits option.splits prod.splits)

lemma upload_refused_fails: "upload_refused e u \<Longrightarrow> \<not> fst (fst (upload_to_s3 e lp u w))"
  by (auto simp: upload_to_s3_def upload_refused_def Let_def split: sum.splits option.splits prod.splits)

lemma merge_resolved_unfold:
  assumes "create_target_file target tf w = (lt, tf0, w1)"
  shows "merge_resolved e target n apb ls tf w =
     (case merge_sources e w1 apb 0 ls [] of
        Inl m \<Rightarrow> (Merge_failed m, tf0, w1)
      | Inr target_doc \<Rightarrow>
          (case save_document e lt target_doc w1 of
             (Some m, w2) \<Rightarrow> (Merge_failed m, tf0, w2)
           | (None, w2) \<Rightarrow>
               if is_s3_uri target
               then (if \<not> fst (fst (upload_to_s3 e lt target w2))
                     then (Upload_failed (snd (fst (upload_to_s3 e lt target w2))), tf0,
                           snd (upload_to_s3 e lt target w2))
                     else (Merged n target, tf0, snd (upload_to_s3 e lt target w2)))
               else (Merged n target, tf0, w2)))"
  unfolding merge_resolved_def assms
  by (auto simp: Let_def split_beta split: sum.splits option.splits prod.splits)

lemma merge_resolved_merged:
  assumes "merge_resolved e target n apb ls tf w = (Merged m t', tf1, w2)"
  shows "m = n \<and> t' = target \<and>
         (\<exists>w1 lt doc. merge_sources e w1 apb 0 ls [] = Inr doc \<and> Save lt doc \<in> set (trace w2)) \<and>
         (is_s3_uri target \<longrightarrow> \<not> upload_refused e target)"
proof -
  obtain lt tf0 w1 where p: "create_target_file target tf w = (lt, tf0, w1)"
    using prod_cases3 by blast
  note u = merge_resolved_unfold [OF p, of e n apb ls]
  obtain doc where ms: "merge_sources e w1 apb 0 ls [] = Inr doc"
    using assms by (cases "merge_sources e w1 apb 0 ls []") (auto simp: u)
  obtain w3 where sv: "save_document e lt doc w1 = (None, w3)"
    using assms by (cases "save_document e lt doc w1") (auto simp: u ms split: option.splits)
  have sin: "Save lt doc \<in> set (trace w3)"
    using sv by (auto simp: save_document_def log_def write_file_def split: option.splits)
  show ?thesis
  proof (cases "is_s3_uri target")
    case False
    have "m = n \<and> t' = target \<and> w2 = w3"
      using assms False by (simp add: u ms sv)
    with sin ms False show ?thesis by blast
  next
    case True
    have r: "fst (fst (upload_to_s3 e lt target w3)) \<and> m = n \<and> t' = target \<and>
             w2 = snd (upload_to_s3 e lt target w3)"
      using assms True by (auto simp: u ms sv split: if_splits)
    have "\<not> upload_refused e target"
      using upload_refused_fails [of e target lt w3] r by blast
    moreover have "Save lt doc \<in> set (trace w2)"
      using trace_upload_mono [of w3 e lt target] r sin by blast
    ultimately show ?thesis using r ms by blast
  qed
qed

lemma merge_documents_merged:
  assumes "merge_documents e t srcs apb w = (Merged n t', w')"
  shows "\<exists>ls tf w1 tf1 w2. resolve_sources e srcs [] [] w = (Inr ls, tf, w1) \<and>
           merge_resolved e (ensure_docx_extension t) (length srcs) apb ls tf w1 = (Merged n t', tf1, w2) \<and>
           w' = cleanup_temp_files tf1 w2"
proof -
  obtain r tf w1 where rs: "resolve_sources e srcs [] [] w = (r, tf, w1)"
    by (metis prod_cases3)
  have nf: "\<not> is_merged f" if "resolve_sources e srcs ls0 tf0 w0 = (Inl f, tfa, wa)" for f ls0 tf0 w0 tfa wa
    using that
  proof (induction srcs arbitrary: ls0 tf0 w0)
    case Nil
    then show ?case by simp
  next
    case (Cons s ss)
    then show ?case
      by (auto simp: Let_def is_merged_def split: if_splits prod.splits)
  qed
  show ?thesis
  proof (cases r)
    case (Inl f)
    with assms rs have "f = Merged n t'"
      by (auto simp: merge_documents_def Let_def split: if_splits prod.splits)
    with nf [of "[]" "[]" w "Merged n t'" tf w1] rs Inl show ?thesis by (simp add: is_merged_def)
  next
    case (Inr ls)
    obtain r2 tf1 w2 where mr: "merge_resolved e (ensure_docx_extension t) (length srcs) apb ls tf w1 = (r2, tf1, w2)"
      by (metis prod_cases3)
    with assms rs Inr have "r2 = Merged n t' \<and> w' = cleanup_temp_files tf1 w2"
      by (auto simp: merge_documents_def Let_def split: if_splits prod.splits)
    with rs Inr mr show ?thesis by blast
  qed
qed

lemma sample_target_writeable: "check_file_writeable sample_env two_local_files ''out.docx'' = (True, [])"
  by (simp add: check_file_writeable_def two_local_files_def file_exists_def sample_env_def dirname_def rfind_def Let_def)

lemma sample_sources_resolve: "resolve_sources sample_env [''a.docx'', ''b.docx''] [] [] two_local_files = (Inr [''a.docx'', ''b.docx''], [], two_local_files)"
  by (simp add: ensure_docx_extension_def endswith_def is_s3_uri_def startswith_def Let_def file_exists_def two_local_files_def)

lemma sample_sources_merge: "\<exists>doc. merge_sources sample_env two_local_files True 0 [''a.docx'', ''b.docx''] [] = Inr doc"
  by (simp add: open_document_def two_local_files_def sample_env_def)

lemma sample_merge_succeeds: "fst (merge_documents sample_env ''out.docx'' [''a.docx'', ''b.docx''] True two_local_files) = Merged 2 ''out.docx''"
proof -
  obtain doc where d: "merge_sources sample_env two_local_files True 0 [''a.docx'', ''b.docx''] [] = Inr doc"
    using sample_sources_merge by blast
  have e: "ensure_docx_extension ''out.docx'' = ''out.docx''" by (simp add: ensure_docx_extension_def endswith_def)
  have s: "\<not> is_s3_uri ''out.docx''" by (simp add: is_s3_uri_def startswith_def)
  have sv: "save_failure sample_env ''out.docx'' = None" by (simp add: sample_env_def)
  show ?thesis
    by (simp add: merge_documents_def e s sample_target_writeable sample_sources_resolve merge_resolved_def create_target_file_def d save_document_def sv Let_def numeral_2_eq_2
        del: resolve_sources.simps merge_sources.simps)
qed


lemma uploads_resolve: "uploads (snd (snd (resolve_sources e srcs ls tf w))) = uploads w"
proof (induction srcs arbitrary: ls tf w)
  case Nil
  then show ?case by simp
next
  case (Cons f fs)
  show ?case
  proof (cases "is_s3_uri (ensure_docx_extension f)")
    case True
    obtain success message lp w0 where
      d: "download_from_s3 e (ensure_docx_extension f) None w = ((success, message, lp), w0)"
      by (metis prod_cases3 surj_pair)
    have u: "uploads w0 = uploads w" using uploads_download [of e "ensure_docx_extension f" None w] d by simp
    show ?thesis using True d u Cons.IH [of "ls @ [path_of lp]" "tf @ [path_of lp]" w0]
      by (simp add: Let_def)
  next
    case False
    then show ?thesis using Cons.IH [of "ls @ [ensure_docx_extension f]" tf w] by (simp add: Let_def)
  qed
qed

lemma saves_resolve: "saves (snd (snd (resolve_sources e srcs ls tf w))) = saves w"
proof (induction srcs arbitrary: ls tf w)
  case Nil
  then show ?case by simp
next
  case (Cons f fs)
  show ?case
  proof (cases "is_s3_uri (ensure_docx_extension f)")
    case True
    obtain success message lp w0 where
      d: "download_from_s3 e (ensure_docx_extension f) None w = ((success, message, lp), w0)"
      by (metis prod_cases3 surj_pair)
    have u: "saves w0 = saves w" using saves_download [of e "ensure_docx_extension f" None w] d by simp
    show ?thesis using True d u Cons.IH [of "ls @ [path_of lp]" "tf @ [path_of lp]" w0]
      by (simp add: Let_def)
  next
    case False
    then show ?thesis using Cons.IH [of "ls @ [ensure_docx_extension f]" tf w] by (simp add: Let_def)
  qed
qed

lemma resolve_temps_nonempty:
  "resolve_sources e srcs ls tf w = (r, tf', w1) \<Longrightarrow> \<forall>p \<in> set tf. p \<noteq> [] \<Longrightarrow>
     \<forall>p \<in> set tf'. p \<noteq> []"
proof (induction srcs arbitrary: ls tf w)
  case Nil
  then show ?case by simp
next
  case (Cons f fs)
  show ?case
  proof (cases "is_s3_uri (ensure_docx_extension f)")
    case True
    obtain success message lp w0 where
      d: "download_from_s3 e (ensure_docx_extension f) None w = ((success, message, lp), w0)"
      by (metis prod_cases3 surj_pair)
    show ?thesis
    proof (cases success)
      case False
      with Cons.prems True d show ?thesis by (simp add: Let_def)
    next
      case s: True
      have "\<exists>p. lp = Some p \<and> p \<noteq> []"
        using download_success_path [of e "ensure_docx_extension f" w message lp w0] d s by simp
      then obtain p where p: "lp = Some p" "p \<noteq> []" by blast
      have r: "resolve_sources e fs (ls @ [path_of lp]) (tf @ [path_of lp]) w0 = (r, tf', w1)"
        using Cons.prems(1) True d s by (simp add: Let_def)
      have "\<forall>q \<in> set (tf @ [path_of lp]). q \<noteq> []"
        using Cons.prems(2) p by (simp add: path_of_def)
      from Cons.IH [OF r this] show ?thesis .
    qed
  next
    case False
    show ?thesis
    proof (cases "file_exists w (ensure_docx_extension f)")
      case True
      with False Cons.prems(1) have
        "resolve_sources e fs (ls @ [ensure_docx_extension f]) tf w = (r, tf', w1)"
        by (simp add: Let_def)
      from Cons.IH [OF this Cons.prems(2)] show ?thesis .
    next
      case nf: False
      with False Cons.prems show ?thesis by (simp add: Let_def)
    qed
  qed
qed

lemma resolve_failure_not_merged:
  "resolve_sources e srcs ls tf w = (Inl f, tf', w1) \<Longrightarrow> \<not> is_merged f"
proof (induction srcs arbitrary: ls tf w)
  case Nil
  then show ?case by simp
next
  case (Cons s ss)
  then show ?case
    by (auto simp: Let_def is_merged_def split: if_splits prod.splits)
qed

lemma files_log: "files (log ev w) = files w"
  by (simp add: log_def)

lemma lookup_write_file: "map_of (files (write_file q c w)) p = (if p = q then Some c else map_of (files w) p)"
  by (simp add: write_file_def update_conv')

lemma mkstemp_preserves:
  "map_of (files w) p = Some c \<Longrightarrow> map_of (files (snd (mkstemp suffix w))) p = Some c"
proof -
  assume a: "map_of (files w) p = Some c"
  then have "file_exists w p" by (simp add: file_exists_def)
  with mkstemp_fresh [of w suffix] have "p \<noteq> fst (mkstemp suffix w)" by auto
  with a show ?thesis by (simp add: mkstemp_def Let_def files_log lookup_write_file)
qed

lemma download_preserves:
  "map_of (files w) p = Some c \<Longrightarrow>
     map_of (files (snd (download_from_s3 e u None w))) p = Some c"
proof -
  assume a: "map_of (files w) p = Some c"
  then have "file_exists w p" by (simp add: file_exists_def)
  with mkstemp_fresh [of w] have ne: "p \<noteq> fst (mkstemp suffix w)" for suffix by auto
  have m: "map_of (files (snd (mkstemp suffix w))) p = Some c" for suffix
    using a by (rule mkstemp_preserves)
  show ?thesis
    using a ne m
    by (auto simp: download_from_s3_def Let_def split_beta files_log lookup_write_file
        split: sum.splits option.splits)
qed

lemma download_success_contents:
  "download_from_s3 e u None w = ((True, m, lp), w0) \<Longrightarrow>
     \<exists>p bucket key c. lp = Some p \<and> parse_s3_uri (check_netloc e) u = Inr (bucket, key) \<and>
        s3_download_file e bucket key = Inr c \<and> map_of (files w0) p = Some c"
  by (auto simp: download_from_s3_def Let_def split_beta files_log lookup_write_file
      split: sum.splits option.splits)

lemma resolve_preserves:
  "resolve_sources e srcs ls tf w = (r, tf', w1) \<Longrightarrow> map_of (files w) p = Some c \<Longrightarrow>
     map_of (files w1) p = Some c"
proof (induction srcs arbitrary: ls tf w)
  case Nil
  then show ?case by simp
next
  case (Cons f fs)
  show ?case
  proof (cases "is_s3_uri (ensure_docx_extension f)")
    case True
    obtain success message lp w0 where
      d: "download_from_s3 e (ensure_docx_extension f) None w = ((success, message, lp), w0)"
      by (metis prod_cases3 surj_pair)
    have k: "map_of (files w0) p = Some c"
      using download_preserves [OF Cons.prems(2), of e "ensure_docx_extension f"] d by simp
    show ?thesis
    proof (cases success)
      case False
      with Cons.prems(1) True d have "w1 = w0" by (simp add: Let_def)
      with k show ?thesis by simp
    next
      case s: True
      have "resolve_sources e fs (ls @ [path_of lp]) (tf @ [path_of lp]) w0 = (r, tf', w1)"
        using Cons.prems(1) True d s by (simp add: Let_def)
      from Cons.IH [OF this k] show ?thesis .
    qed
  next
    case False
    show ?thesis
    proof (cases "file_exists w (ensure_docx_extension f)")
      case True
      with False Cons.prems(1) have
        "resolve_sources e fs (ls @ [ensure_docx_extension f]) tf w = (r, tf', w1)"
        by (simp add: Let_def)
      from Cons.IH [OF this Cons.prems(2)] show ?thesis .
    next
      case nf: False
      with False Cons.prems(1) have "w1 = w" by (simp add: Let_def)
      with Cons.prems(2) show ?thesis by simp
    qed
  qed
qed

lemma resolve_contents:
  "resolve_sources e srcs ls0 tf0 w = (Inr ls, tf, w1) \<Longrightarrow>
   (\<And>p c. map_of (files w1) p = Some c \<Longrightarrow> map_of (files W) p = Some c) \<Longrightarrow>
     \<exists>new. ls = ls0 @ new \<and>
           map (\<lambda>p. map_of (files W) p) new = map (source_contents e W) srcs"
proof (induction srcs arbitrary: ls0 tf0 w)
  case Nil
  then show ?case by simp
next
  case (Cons f fs)
  show ?case
  proof (cases "is_s3_uri (ensure_docx_extension f)")
    case True
    obtain success message lp w0 where
      d: "download_from_s3 e (ensure_docx_extension f) None w = ((success, message, lp), w0)"
      by (metis prod_cases3 surj_pair)
    have s: success using Cons.prems(1) True d by (auto simp: Let_def split: if_splits)
    have r: "resolve_sources e fs (ls0 @ [path_of lp]) (tf0 @ [path_of lp]) w0 = (Inr ls, tf, w1)"
      using Cons.prems(1) True d s by (simp add: Let_def)
    from download_success_contents [of e "ensure_docx_extension f" w message lp w0] d s
    obtain p bucket key c where
      lp: "lp = Some p" and
      pr: "parse_s3_uri (check_netloc e) (ensure_docx_extension f) = Inr (bucket, key)" and
      dl: "s3_download_file e bucket key = Inr c" and
      c0: "map_of (files w0) p = Some c"
      by auto
    have "map_of (files w1) p = Some c" using resolve_preserves [OF r c0] .
    then have cW: "map_of (files W) p = Some c" by (rule Cons.prems(2))
    from Cons.IH [OF r Cons.prems(2)] obtain new where
      n1: "ls = (ls0 @ [path_of lp]) @ new" and
      n2: "map (\<lambda>p. map_of (files W) p) new = map (source_contents e W) fs"
      by blast
    have h: "source_contents e W f = Some c"
      using True pr dl by (simp add: source_contents_def)
    have "ls = ls0 @ (p # new)" using n1 lp by (simp add: path_of_def)
    moreover have "map (\<lambda>p. map_of (files W) p) (p # new) = map (source_contents e W) (f # fs)"
      using n2 cW h by simp
    ultimately show ?thesis by blast
  next
    case False
    have ex: "file_exists w (ensure_docx_extension f)"
      using Cons.prems(1) False by (auto simp: Let_def split: if_splits)
    have r: "resolve_sources e fs (ls0 @ [ensure_docx_extension f]) tf0 w = (Inr ls, tf, w1)"
      using Cons.prems(1) False ex by (simp add: Let_def)
    from Cons.IH [OF r Cons.prems(2)] obtain new where
      n1: "ls = (ls0 @ [ensure_docx_extension f]) @ new" and
      n2: "map (\<lambda>p. map_of (files W) p) new = map (source_contents e W) fs"
      by blast
    have h: "source_contents e W f = map_of (files W) (ensure_docx_extension f)"
      using False by (simp add: source_contents_def)
    have "ls = ls0 @ (ensure_docx_extension f # new)" using n1 by simp
    moreover have "map (\<lambda>p. map_of (files W) p) (ensure_docx_extension f # new) =
                   map (source_contents e W) (f # fs)"
      using n2 h by simp
    ultimately show ?thesis by blast
  qed
qed

lemma opened_documents_of_sources:
  "map (open_document e W) ls = map Inr ds \<Longrightarrow>
   map (\<lambda>p. map_of (files W) p) ls = map (source_contents e W) srcs \<Longrightarrow>
     map (source_document e W) srcs = map Inr ds"
proof (induction ls arbitrary: ds srcs)
  case Nil
  then show ?case by simp
next
  case (Cons l ls)
  from Cons.prems(1) obtain d ds' where ds: "ds = d # ds'" and
    o: "open_document e W l = Inr d" and os: "map (open_document e W) ls = map Inr ds'"
    by (cases ds) auto
  from Cons.prems(2) obtain f fs where srcs: "srcs = f # fs" and
    c: "map_of (files W) l = source_contents e W f" and
    cs: "map (\<lambda>p. map_of (files W) p) ls = map (source_contents e W) fs"
    by (cases srcs) auto
  have "source_document e W f = Inr d"
    using o c by (auto simp: open_document_def source_document_def split: option.splits)
  with Cons.IH [OF os cs] ds srcs show ?case by simp
qed

lemma merge_resolved_saves:
  assumes "merge_resolved e target n apb ls tf w = (Merged m t', tf1, w2)"
  shows "\<exists>doc. merge_sources e (snd (snd (create_target_file target tf w))) apb 0 ls [] = Inr doc \<and>
           saves w2 = saves w @ [Save (fst (create_target_file target tf w)) doc]"
proof -
  obtain lt tf0 w1 where p: "create_target_file target tf w = (lt, tf0, w1)"
    using prod_cases3 by blast
  note u = merge_resolved_unfold [OF p, of e n apb ls]
  have sw: "saves w1 = saves w"
    using p saves_mkstemp [of "''.docx''" w]
    by (auto simp: create_target_file_def split_beta Let_def split: if_splits)
  obtain doc where ms: "merge_sources e w1 apb 0 ls [] = Inr doc"
    using assms by (cases "merge_sources e w1 apb 0 ls []") (auto simp: u)
  obtain w3 where sv: "save_document e lt doc w1 = (None, w3)"
    using assms by (cases "save_document e lt doc w1") (auto simp: u ms split: option.splits)
  have s3: "saves w3 = saves w1 @ [Save lt doc]"
    using sv by (auto simp: save_document_def saves_log saves_write_file is_save_def
        split: option.splits)
  have "saves w2 = saves w3"
  proof (cases "is_s3_uri target")
    case False
    then show ?thesis using assms by (simp add: u ms sv)
  next
    case True
    then have "w2 = snd (upload_to_s3 e lt target w3)"
      using assms by (auto simp: u ms sv split: if_splits)
    then show ?thesis by (simp add: saves_upload)
  qed
  then show ?thesis using p ms s3 sw by simp
qed

text \<open>
  Claim C7.  Whenever \<open>merge_documents\<close> reports success, every source was read, each
  as the document its own locator stands for (\<open>source_document\<close>: the object of the
  store for a remote locator, the file at its path for a local one), and the call
  saves exactly one document, which has the layout of \<open>merged_layout\<close> over the sources
  in the order given: the content copied from the first source, then, for each later
  source in order, a page break (when \<open>add_page_breaks\<close> holds) immediately followed by
  the content copied from that source.  The copied content holds no page break, so
  the saved document has exactly \<open>N - 1\<close> page breaks for \<open>N\<close> sources when
  \<open>add_page_breaks\<close> holds, and none when it does not.  The files that exist when the
  call starts have the same contents when the sources are read.
\<close>

theorem merge_inserts_page_breaks_between_sources:
  assumes "merge_documents e t srcs apb w = (Merged n t', w')"
  shows "n = length srcs \<and> t' = ensure_docx_extension t \<and>
         (\<exists>ds. map (source_document e (merge_world e t srcs w)) srcs = map Inr ds \<and>
               saves w' = saves w @
                 [Save (merge_target_path e t srcs w) (merged_layout apb (map (copied e) ds))] \<and>
               (\<forall>d \<in> set ds. Page_break \<notin> set (copied e d)) \<and>
               length (filter (\<lambda>b. b = Page_break) (merged_layout apb (map (copied e) ds))) =
                 (if apb then length srcs - 1 else 0)) \<and>
         (\<forall>p c. map_of (files w) p = Some c \<longrightarrow>
                 map_of (files (merge_world e t srcs w)) p = Some c)"
proof -
  from merge_documents_merged [OF assms] obtain ls tf w1 tf1 w2 where
    rs: "resolve_sources e srcs [] [] w = (Inr ls, tf, w1)" and
    mr: "merge_resolved e (ensure_docx_extension t) (length srcs) apb ls tf w1 = (Merged n t', tf1, w2)" and
    w': "w' = cleanup_temp_files tf1 w2"
    by blast
  let ?W = "merge_world e t srcs w"
  have W: "?W = snd (snd (create_target_file (ensure_docx_extension t) tf w1))"
    by (simp add: merge_world_def rs)
  have T: "merge_target_path e t srcs w = fst (create_target_file (ensure_docx_extension t) tf w1)"
    by (simp add: merge_target_path_def rs)
  have pw: "map_of (files ?W) p = Some c" if "map_of (files w1) p = Some c" for p c
    unfolding W using that mkstemp_preserves [of w1 p c "''.docx''"]
    by (auto simp: create_target_file_def split_beta Let_def)
  have pres: "\<forall>p c. map_of (files w) p = Some c \<longrightarrow> map_of (files ?W) p = Some c"
    using resolve_preserves [OF rs] pw by blast
  from merge_resolved_merged [OF mr] have nt: "n = length srcs" "t' = ensure_docx_extension t"
    by auto
  from merge_resolved_saves [OF mr] obtain doc where
    ms: "merge_sources e ?W apb 0 ls [] = Inr doc" and
    sv: "saves w2 = saves w1 @ [Save (merge_target_path e t srcs w) doc]"
    unfolding W T by blast
  from merge_sources_layout [OF ms] obtain ds where
    ds: "map (open_document e ?W) ls = map Inr ds" and
    doc: "doc = merged_layout apb (map (copied e) ds)"
    by blast
  from resolve_contents [OF rs pw] obtain new where
    "ls = [] @ new" and "map (\<lambda>p. map_of (files ?W) p) new = map (source_contents e ?W) srcs"
    by blast
  then have ct: "map (\<lambda>p. map_of (files ?W) p) ls = map (source_contents e ?W) srcs" by simp
  have sd: "map (source_document e ?W) srcs = map Inr ds"
    using opened_documents_of_sources [OF ds ct] .
  have "length ds = length srcs" using sd by (metis length_map)
  then have lds: "length (map (copied e) ds) = length srcs" by simp
  have nb: "\<forall>part \<in> set (map (copied e) ds). Page_break \<notin> set part"
    using copied_no_break by auto
  have cnt: "length (filter (\<lambda>b. b = Page_break) (merged_layout apb (map (copied e) ds))) =
             (if apb then length srcs - 1 else 0)"
    using count_breaks_layout [OF nb, of apb] lds by simp
  have s1: "saves w1 = saves w" using saves_resolve [of e srcs "[]" "[]" w] rs by simp
  have sw: "saves w' = saves w @
              [Save (merge_target_path e t srcs w) (merged_layout apb (map (copied e) ds))]"
    using sv s1 w' doc by (simp add: saves_cleanup)
  have nbd: "\<forall>d \<in> set ds. Page_break \<notin> set (copied e d)" using copied_no_break by blast
  from sd sw nbd cnt have
    "\<exists>ds. map (source_document e ?W) srcs = map Inr ds \<and>
          saves w' = saves w @
            [Save (merge_target_path e t srcs w) (merged_layout apb (map (copied e) ds))] \<and>
          (\<forall>d \<in> set ds. Page_break \<notin> set (copied e d)) \<and>
          length (filter (\<lambda>b. b = Page_break) (merged_layout apb (map (copied e) ds))) =
            (if apb then length srcs - 1 else 0)"
    by blast
  with nt pres show ?thesis by blast
qed

lemma download_trace:
  "download_from_s3 e u None w = ((success, m, lp), w0) \<Longrightarrow>
     \<exists>evs. trace w0 = trace w @ evs \<and>
           (\<forall>b k p. S3_download b k p True \<in> set evs \<longrightarrow> success \<and> lp = Some p)"
  by (auto simp: download_from_s3_def Let_def split_beta mkstemp_def log_def write_file_def
      split: sum.splits option.splits prod.splits)

lemma resolve_registers_downloads:
  "resolve_sources e srcs ls tf w = (r, tf', w1) \<Longrightarrow>
     \<exists>evs. trace w1 = trace w @ evs \<and> set tf \<subseteq> set tf' \<and>
           (\<forall>b k p. S3_download b k p True \<in> set evs \<longrightarrow> p \<in> set tf')"
proof (induction srcs arbitrary: ls tf w)
  case Nil
  then show ?case by simp
next
  case (Cons f fs)
  show ?case
  proof (cases "is_s3_uri (ensure_docx_extension f)")
    case True
    obtain success message lp w0 where
      d: "download_from_s3 e (ensure_docx_extension f) None w = ((success, message, lp), w0)"
      by (metis prod_cases3 surj_pair)
    from download_trace [OF d] obtain evs0 where
      t0: "trace w0 = trace w @ evs0" and
      r0: "\<forall>b k p. S3_download b k p True \<in> set evs0 \<longrightarrow> success \<and> lp = Some p"
      by blast
    show ?thesis
    proof (cases success)
      case False
      with Cons.prems True d have "tf' = tf" "w1 = w0" by (simp_all add: Let_def)
      with t0 r0 False show ?thesis by auto
    next
      case s: True
      have r: "resolve_sources e fs (ls @ [path_of lp]) (tf @ [path_of lp]) w0 = (r, tf', w1)"
        using Cons.prems True d s by (simp add: Let_def)
      from Cons.IH [OF r] obtain evs1 where
        t1: "trace w1 = trace w0 @ evs1" and sub: "set (tf @ [path_of lp]) \<subseteq> set tf'" and
        r1: "\<forall>b k p. S3_download b k p True \<in> set evs1 \<longrightarrow> p \<in> set tf'"
        by blast
      have "trace w1 = trace w @ (evs0 @ evs1)" using t0 t1 by simp
      moreover have "set tf \<subseteq> set tf'" using sub by simp
      moreover have "\<forall>b k p. S3_download b k p True \<in> set (evs0 @ evs1) \<longrightarrow> p \<in> set tf'"
        using r0 r1 sub by (auto simp: path_of_def)
      ultimately show ?thesis by blast
    qed
  next
    case False
    show ?thesis
    proof (cases "file_exists w (ensure_docx_extension f)")
      case True
      with False Cons.prems have
        "resolve_sources e fs (ls @ [ensure_docx_extension f]) tf w = (r, tf', w1)"
        by (simp add: Let_def)
      from Cons.IH [OF this] show ?thesis .
    next
      case nf: False
      with False Cons.prems have "tf' = tf" "w1 = w" by (simp_all add: Let_def)
      then show ?thesis by simp
    qed
  qed
qed

lemma download_refusal_iff:
  "fst (fst (download_from_s3 e u None w)) = (download_refusal e u = None)"
  by (auto simp: download_refusal_def download_from_s3_def Let_def split_beta
      split: sum.splits option.splits)

lemma download_refused_result:
  "download_refusal e u = Some m \<Longrightarrow> fst (download_from_s3 e u None w) = (False, m, None)"
  by (auto simp: download_refusal_def download_from_s3_def Let_def split_beta
      split: sum.splits option.splits)

lemma resolve_sources_append:
  "resolve_sources e (pre @ rest) ls tf w =
     (case resolve_sources e pre ls tf w of
        (Inl failure, tf', w') \<Rightarrow> (Inl failure, tf', w')
      | (Inr ls', tf', w') \<Rightarrow> resolve_sources e rest ls' tf' w')"
proof (induction pre arbitrary: ls tf w)
  case Nil
  then show ?case by simp
next
  case (Cons f fs)
  show ?case
  proof (cases "is_s3_uri (ensure_docx_extension f)")
    case True
    obtain success message lp w0 where
      d: "download_from_s3 e (ensure_docx_extension f) None w = ((success, message, lp), w0)"
      by (metis prod_cases3 surj_pair)
    show ?thesis using True d Cons.IH [of "ls @ [path_of lp]" "tf @ [path_of lp]" w0]
      by (simp add: Let_def)
  next
    case False
    then show ?thesis using Cons.IH [of "ls @ [ensure_docx_extension f]" tf w]
      by (simp add: Let_def)
  qed
qed

lemma resolve_failing_head:
  assumes "source_failure e w f = Some failure"
  shows "\<exists>w0. resolve_sources e (f # post) ls tf w = (Inl failure, tf, w0) \<and>
              trace w0 = trace w @ new_events w w0 \<and>
              (\<forall>bucket key p. S3_download bucket key p True \<notin> set (new_events w w0))"
proof (cases "is_s3_uri (ensure_docx_extension f)")
  case True
  with assms obtain m where m: "download_refusal e (ensure_docx_extension f) = Some m"
    and f: "failure = Download_failed (ensure_docx_extension f) m"
    by (auto simp: source_failure_def Let_def split: option.splits)
  obtain x w0 where d: "download_from_s3 e (ensure_docx_extension f) None w = (x, w0)"
    by (cases "download_from_s3 e (ensure_docx_extension f) None w")
  have x: "x = (False, m, None)" using download_refused_result [OF m, of w] d by simp
  from download_trace [of e "ensure_docx_extension f" w False m None w0] d x
  obtain evs where t: "trace w0 = trace w @ evs" and
    n: "\<forall>b k p. S3_download b k p True \<notin> set evs"
    by auto
  have "new_events w w0 = evs" using t by (simp add: new_events_def)
  with t n have "trace w0 = trace w @ new_events w w0 \<and>
              (\<forall>bucket key p. S3_download bucket key p True \<notin> set (new_events w w0))"
    by simp
  moreover have "resolve_sources e (f # post) ls tf w = (Inl failure, tf, w0)"
    using True d x f by (simp add: Let_def)
  ultimately show ?thesis by blast
next
  case False
  with assms have "\<not> file_exists w (ensure_docx_extension f)"
    and "failure = Source_missing (ensure_docx_extension f)"
    by (auto simp: source_failure_def Let_def split: if_splits)
  with False have "resolve_sources e (f # post) ls tf w = (Inl failure, tf, w)"
    by (simp add: Let_def)
  then show ?thesis by (auto simp: new_events_def)
qed

lemma resolve_refused_source:
  "f \<in> set srcs \<Longrightarrow> is_s3_uri (ensure_docx_extension f) \<Longrightarrow>
   download_refusal e (ensure_docx_extension f) \<noteq> None \<Longrightarrow>
     \<exists>failure tf' w1. resolve_sources e srcs ls tf w = (Inl failure, tf', w1)"
proof (induction srcs arbitrary: ls tf w)
  case Nil
  then show ?case by simp
next
  case (Cons g gs)
  show ?case
  proof (cases "source_failure e w g")
    case (Some failure)
    from resolve_failing_head [OF this, of gs ls tf] show ?thesis by blast
  next
    case None
    then have gf: "g \<noteq> f"
      using Cons.prems(2,3) by (auto simp: source_failure_def Let_def split: option.splits)
    then have fin: "f \<in> set gs" using Cons.prems(1) by simp
    show ?thesis
    proof (cases "is_s3_uri (ensure_docx_extension g)")
      case True
      obtain success message lp w0 where
        d: "download_from_s3 e (ensure_docx_extension g) None w = ((success, message, lp), w0)"
        by (metis prod_cases3 surj_pair)
      show ?thesis
      proof (cases success)
        case False
        with True d show ?thesis by (simp add: Let_def)
      next
        case s: True
        from Cons.IH [OF fin Cons.prems(2,3), of "ls @ [path_of lp]" "tf @ [path_of lp]" w0]
        show ?thesis using True d s by (simp add: Let_def)
      qed
    next
      case False
      show ?thesis
      proof (cases "file_exists w (ensure_docx_extension g)")
        case True
        from Cons.IH [OF fin Cons.prems(2,3), of "ls @ [ensure_docx_extension g]" tf w]
        show ?thesis using False True by (simp add: Let_def)
      next
        case nf: False
        with False show ?thesis by (simp add: Let_def)
      qed
    qed
  qed
qed

lemma trace_cleanup:
  "\<exists>evs. trace (cleanup_temp_files ts w) = trace w @ evs \<and>
         (\<forall>bucket key p. S3_download bucket key p True \<notin> set evs)"
proof (induction ts arbitrary: w)
  case Nil
  then show ?case by simp
next
  case (Cons t ts)
  let ?w = "if t \<noteq> [] \<and> file_exists w t then unlink t w else w"
  have "\<exists>evs0. trace ?w = trace w @ evs0 \<and> (\<forall>b k p. S3_download b k p True \<notin> set evs0)"
    by (auto simp: trace_unlink)
  then obtain evs0 where a: "trace ?w = trace w @ evs0"
    and b: "\<forall>b k p. S3_download b k p True \<notin> set evs0" by blast
  from Cons.IH [of ?w] obtain evs1 where c: "trace (cleanup_temp_files ts ?w) = trace ?w @ evs1"
    and d: "\<forall>b k p. S3_download b k p True \<notin> set evs1" by blast
  have "trace (cleanup_temp_files (t # ts) w) = trace w @ (evs0 @ evs1)" using a c by simp
  moreover have "\<forall>b k p. S3_download b k p True \<notin> set (evs0 @ evs1)" using b d by simp
  ultimately show ?case by blast
qed

lemma failed_resolution_aborts:
  assumes "resolve_sources e srcs [] [] w = (Inl failure, temps, w1)"
  shows "merge_aborted w (failure, cleanup_temp_files temps w1) \<and>
         (\<forall>p \<in> set temps. \<not> file_exists (cleanup_temp_files temps w1) p)"
proof -
  let ?w' = "cleanup_temp_files temps w1"
  have u: "uploads ?w' = uploads w"
    using uploads_resolve [of e srcs "[]" "[]" w] assms by (simp add: uploads_cleanup)
  have s: "saves ?w' = saves w"
    using saves_resolve [of e srcs "[]" "[]" w] assms by (simp add: saves_cleanup)
  have ne: "\<forall>p \<in> set temps. p \<noteq> []"
    using resolve_temps_nonempty [OF assms] by simp
  have gone: "\<forall>p \<in> set temps. \<not> file_exists ?w' p"
    using ne cleanup_removes by blast
  from resolve_registers_downloads [OF assms] obtain evs1 where
    t1: "trace w1 = trace w @ evs1" and
    reg: "\<forall>b k p. S3_download b k p True \<in> set evs1 \<longrightarrow> p \<in> set temps"
    by blast
  from trace_cleanup [of temps w1] obtain evs2 where
    t2: "trace ?w' = trace w1 @ evs2" and
    nd: "\<forall>b k p. S3_download b k p True \<notin> set evs2"
    by blast
  have "new_events w ?w' = evs1 @ evs2" using t1 t2 by (simp add: new_events_def)
  then have "\<forall>b k p. S3_download b k p True \<in> set (new_events w ?w') \<longrightarrow> \<not> file_exists ?w' p"
    using reg nd gone by auto
  with u s gone resolve_failure_not_merged [OF assms] show ?thesis
    by (simp add: merge_aborted_def)
qed

lemma merge_documents_failed_resolution:
  assumes "is_s3_uri (ensure_docx_extension t) \<or>
           fst (check_file_writeable e w (ensure_docx_extension t))"
    and "resolve_sources e srcs [] [] w = (Inl failure, temps, w1)"
  shows "merge_documents e t srcs apb w = (failure, cleanup_temp_files temps w1)"
  using assms by (auto simp: merge_documents_def Let_def split_beta)

lemma merge_documents_not_writeable:
  assumes "\<not> (is_s3_uri (ensure_docx_extension t) \<or>
              fst (check_file_writeable e w (ensure_docx_extension t)))"
  shows "merge_aborted w (merge_documents e t srcs apb w)"
proof -
  have "merge_documents e t srcs apb w =
          (Cannot_create (snd (check_file_writeable e w (ensure_docx_extension t))), w)"
    using assms by (auto simp: merge_documents_def Let_def split_beta)
  then show ?thesis by (simp add: merge_aborted_def is_merged_def new_events_def)
qed

text \<open>
  Claim C4.  Take any call of \<open>merge_documents\<close> in which some source cannot be
  resolved while every source before it was: the source is remote and its download
  fails (the address does not parse, no client can be made, or the store fails the
  request), or it is local and no file is at its path.  Then the call aborts: its
  outcome is not the success message, it makes no upload call and saves no document,
  and every file that a download of the call wrote is gone when it returns.  When the
  target has passed its check, the outcome is the failure of that very source, and
  every file on the list \<open>temp_files\<close> of the sources resolved before it is gone.
  A remote source whose download fails aborts the call at whatever place it stands
  in the list.
\<close>

theorem merge_aborts_when_a_source_fails:
  "(srcs = pre @ f # post \<and>
    resolve_sources e pre [] [] w = (Inr ls, temps, w1) \<and>
    source_failure e w1 f = Some failure
    \<longrightarrow> merge_aborted w (merge_documents e t srcs apb w) \<and>
        (is_s3_uri (ensure_docx_extension t) \<or>
         fst (check_file_writeable e w (ensure_docx_extension t))
         \<longrightarrow> fst (merge_documents e t srcs apb w) = failure \<and>
             (\<forall>p \<in> set temps. \<not> file_exists (snd (merge_documents e t srcs apb w)) p))) \<and>
   (g \<in> set srcs \<and> is_s3_uri (ensure_docx_extension g) \<and>
    download_refusal e (ensure_docx_extension g) \<noteq> None
    \<longrightarrow> merge_aborted w (merge_documents e t srcs apb w))"
proof -
  have a: "fst (merge_documents e t srcs apb w) = failure \<and>
        merge_aborted w (merge_documents e t srcs apb w) \<and>
        (\<forall>p \<in> set temps. \<not> file_exists (snd (merge_documents e t srcs apb w)) p)"
    if ok: "is_s3_uri (ensure_docx_extension t) \<or>
            fst (check_file_writeable e w (ensure_docx_extension t))"
      and srcs: "srcs = pre @ f # post"
      and pre: "resolve_sources e pre [] [] w = (Inr ls, temps, w1)"
      and fl: "source_failure e w1 f = Some failure"
  proof -
    from resolve_failing_head [OF fl, of post ls temps] obtain w0 where
      h: "resolve_sources e (f # post) ls temps w1 = (Inl failure, temps, w0)"
      by blast
    have r: "resolve_sources e srcs [] [] w = (Inl failure, temps, w0)"
      unfolding srcs resolve_sources_append pre using h by simp
    from merge_documents_failed_resolution [OF ok r, of apb] failed_resolution_aborts [OF r]
    show ?thesis by simp
  qed
  have c: "merge_aborted w (merge_documents e t srcs apb w)"
    if "\<not> (is_s3_uri (ensure_docx_extension t) \<or>
             fst (check_file_writeable e w (ensure_docx_extension t)))"
    using that by (rule merge_documents_not_writeable)
  have b: "merge_aborted w (merge_documents e t srcs apb w)"
    if g: "g \<in> set srcs" and s3: "is_s3_uri (ensure_docx_extension g)"
      and rf: "download_refusal e (ensure_docx_extension g) \<noteq> None"
  proof (cases "is_s3_uri (ensure_docx_extension t) \<or>
                fst (check_file_writeable e w (ensure_docx_extension t))")
    case False
    then show ?thesis by (rule merge_documents_not_writeable)
  next
    case True
    from resolve_refused_source [OF g s3 rf, of "[]" "[]" w] obtain failure' tf' w1' where
      r: "resolve_sources e srcs [] [] w = (Inl failure', tf', w1')"
      by blast
    from merge_documents_failed_resolution [OF True r, of apb] failed_resolution_aborts [OF r]
    show ?thesis by simp
  qed
  from a b c show ?thesis by blast
qed

text \<open>
  Claim C3, as amended.  When \<open>__exit__\<close> runs with no exception pending on a session
  that is not read-only and has an output locator: if the working file exists and its
  upload fails with message \<open>m\<close>, \<open>__exit__\<close> raises \<open>IOError\<close> carrying \<open>m\<close>; if the
  working file does not exist, \<open>__exit__\<close> makes no upload call and raises nothing.
  When the target of a merge is remote and the store refuses the upload to it,
  \<open>merge_documents\<close> does not report success: it returns one of its failure messages.
\<close>

theorem upload_failure_is_surfaced:
  "(\<not> read_only ctx \<and> output_s3_uri ctx = Some uri \<and> uri \<noteq> [] \<and>
    output_local_path ctx = Some olp \<and> file_exists w olp \<and>
    fst (upload_to_s3 e olp uri w) = (False, m)
    \<longrightarrow> fst (S3FileContext_exit e ctx True w) = Some (IOError (''Failed to upload to S3: '' @ m))) \<and>
   (\<not> read_only ctx \<and> output_s3_uri ctx = Some uri \<and> uri \<noteq> [] \<and>
    output_local_path ctx = Some olp \<and> \<not> file_exists w olp
    \<longrightarrow> fst (S3FileContext_exit e ctx True w) = None \<and>
        uploads (snd (S3FileContext_exit e ctx True w)) = uploads w) \<and>
   (is_s3_uri (ensure_docx_extension t) \<and> upload_refused e (ensure_docx_extension t)
    \<longrightarrow> \<not> is_merged (fst (merge_documents e t srcs apb w')))"
proof -
  have a: "fst (S3FileContext_exit e ctx True w) = Some (IOError (''Failed to upload to S3: '' @ m))"
    if "\<not> read_only ctx" "output_s3_uri ctx = Some uri" "uri \<noteq> []"
       "output_local_path ctx = Some olp" "file_exists w olp"
       "fst (upload_to_s3 e olp uri w) = (False, m)"
    using that by (simp add: S3FileContext_exit_def exit_upload_def split_beta)
  have c: "fst (S3FileContext_exit e ctx True w) = None \<and>
           uploads (snd (S3FileContext_exit e ctx True w)) = uploads w"
    if "\<not> read_only ctx" "output_s3_uri ctx = Some uri" "uri \<noteq> []"
       "output_local_path ctx = Some olp" "\<not> file_exists w olp"
    using that by (simp add: S3FileContext_exit_def exit_upload_def uploads_exit_cleanup)
  have b: "\<not> is_merged (fst (merge_documents e t srcs apb w'))"
    if s3: "is_s3_uri (ensure_docx_extension t)" and rf: "upload_refused e (ensure_docx_extension t)"
  proof
    assume "is_merged (fst (merge_documents e t srcs apb w'))"
    then obtain n t' w2 where "merge_documents e t srcs apb w' = (Merged n t', w2)"
      by (cases "merge_documents e t srcs apb w'"; cases "fst (merge_documents e t srcs apb w')")
         (auto simp: is_merged_def)
    from merge_documents_merged [OF this] obtain ls tf w1 tf1 w3 where
      "merge_resolved e (ensure_docx_extension t) (length srcs) apb ls tf w1 = (Merged n t', tf1, w3)"
      by blast
    from merge_resolved_merged [OF this] s3 rf show False by blast
  qed
  from a b c show ?thesis by blast
qed


section \<open>Concrete runs\<close>

lemmas parse_defs = parse_s3_uri_def is_s3_uri_def startswith_def urlparse_def unsafe_url_char_def
  split_scheme_def ascii_letters_def scheme_chars_def splitnetloc_def netloc_delim_def
  check_netloc_brackets_def lstrip_def

lemma host_check_sample: "check_netloc sample_env = (\<lambda>h. None)"
  by (simp add: sample_env_def)

lemma host_check_denying: "check_netloc denying_env = (\<lambda>h. None)"
  by (simp add: denying_env_def sample_env_def)

lemma host_check_missing: "check_netloc missing_object_env = (\<lambda>h. None)"
  by (simp add: missing_object_env_def sample_env_def)

lemma client_sample: "client_failure sample_env = None"
  by (simp add: sample_env_def)

lemma download_sample: "s3_download_file sample_env bucket key = Inr (Object_bytes 0)"
  by (simp add: sample_env_def)

lemma parse_out: "parse_s3_uri (\<lambda>h. None) ''s3://b/out.docx'' = Inr (''b'', ''out.docx'')"
  by (simp add: parse_defs)

lemma parse_a: "parse_s3_uri (\<lambda>h. None) ''s3://b/a.docx'' = Inr (''b'', ''a.docx'')"
  by (simp add: parse_defs)

lemma ext_a: "snd (splitext (basename ''a.docx'')) = ''.docx''"
  by (simp add: splitext_def basename_def rfind_def slice_def)

lemma mkstemp_empty: "mkstemp ''.docx'' empty_world =
   (''/tmp/tmpx.docx'', \<lparr>files = [(''/tmp/tmpx.docx'', Empty_file)], trace = [Mkstemp ''/tmp/tmpx.docx'']\<rparr>)"
  by (simp add: empty_world_def mkstemp_def log_def write_file_def longest_path_def Let_def)

lemma download_a: "download_from_s3 sample_env ''s3://b/a.docx'' None empty_world =
   ((True, ''Downloaded from S3'', Some ''/tmp/tmpx.docx''),
    \<lparr>files = [(''/tmp/tmpx.docx'', Object_bytes 0)],
     trace = [Mkstemp ''/tmp/tmpx.docx'', S3_download ''b'' ''a.docx'' ''/tmp/tmpx.docx'' True]\<rparr>)"
  by (simp add: download_from_s3_def host_check_sample parse_a ext_a mkstemp_empty
      client_sample download_sample log_def write_file_def)

lemma ensure_a: "ensure_docx_extension ''s3://b/a.docx'' = ''s3://b/a.docx''"
  by (simp add: ensure_docx_extension_def endswith_def)

lemma ensure_missing: "ensure_docx_extension ''missing.docx'' = ''missing.docx''"
  by (simp add: ensure_docx_extension_def endswith_def)

lemma ensure_out: "ensure_docx_extension ''out.docx'' = ''out.docx''"
  by (simp add: ensure_docx_extension_def endswith_def)

lemma ensure_s3_out: "ensure_docx_extension ''s3://b/out.docx'' = ''s3://b/out.docx''"
  by (simp add: ensure_docx_extension_def endswith_def)

lemma out_writeable: "fst (check_file_writeable sample_env empty_world ''out.docx'')"
  by (simp add: check_file_writeable_def empty_world_def file_exists_def sample_env_def dirname_def rfind_def Let_def)

lemma resolve_prefix_sample:
  "resolve_sources sample_env [''s3://b/a.docx''] [] [] empty_world =
     (Inr [''/tmp/tmpx.docx''], [''/tmp/tmpx.docx''],
      \<lparr>files = [(''/tmp/tmpx.docx'', Object_bytes 0)],
       trace = [Mkstemp ''/tmp/tmpx.docx'', S3_download ''b'' ''a.docx'' ''/tmp/tmpx.docx'' True]\<rparr>)"
  by (simp add: ensure_a download_a Let_def is_s3_uri_def startswith_def path_of_def)

lemma missing_fails:
  "source_failure sample_env
     \<lparr>files = [(''/tmp/tmpx.docx'', Object_bytes 0)],
      trace = [Mkstemp ''/tmp/tmpx.docx'', S3_download ''b'' ''a.docx'' ''/tmp/tmpx.docx'' True]\<rparr>
     ''missing.docx'' = Some (Source_missing ''missing.docx'')"
  by (simp add: source_failure_def ensure_missing Let_def is_s3_uri_def startswith_def
      file_exists_def)

lemma host_check_one: "check_netloc one_object_env = (\<lambda>h. None)"
  by (simp add: one_object_env_def sample_env_def)

lemma client_one: "client_failure one_object_env = None"
  by (simp add: one_object_env_def sample_env_def)

lemma download_one_a: "s3_download_file one_object_env bucket ''a.docx'' = Inr (Object_bytes 0)"
  by (simp add: one_object_env_def)

lemma download_one_gone:
  "s3_download_file one_object_env bucket ''gone.docx'' = Inl (ClientError ''404'' ''Not Found'')"
  by (simp add: one_object_env_def)

lemma download_a_one: "download_from_s3 one_object_env ''s3://b/a.docx'' None empty_world =
   ((True, ''Downloaded from S3'', Some ''/tmp/tmpx.docx''),
    \<lparr>files = [(''/tmp/tmpx.docx'', Object_bytes 0)],
     trace = [Mkstemp ''/tmp/tmpx.docx'', S3_download ''b'' ''a.docx'' ''/tmp/tmpx.docx'' True]\<rparr>)"
  by (simp add: download_from_s3_def host_check_one parse_a ext_a mkstemp_empty
      client_one download_one_a log_def write_file_def)

lemma resolve_prefix_one:
  "resolve_sources one_object_env [''s3://b/a.docx''] [] [] empty_world =
     (Inr [''/tmp/tmpx.docx''], [''/tmp/tmpx.docx''],
      \<lparr>files = [(''/tmp/tmpx.docx'', Object_bytes 0)],
       trace = [Mkstemp ''/tmp/tmpx.docx'', S3_download ''b'' ''a.docx'' ''/tmp/tmpx.docx'' True]\<rparr>)"
  by (simp add: ensure_a download_a_one Let_def is_s3_uri_def startswith_def path_of_def)

lemma parse_gone: "parse_s3_uri (\<lambda>h. None) ''s3://b/gone.docx'' = Inr (''b'', ''gone.docx'')"
  by (simp add: parse_defs)

lemma ensure_gone: "ensure_docx_extension ''s3://b/gone.docx'' = ''s3://b/gone.docx''"
  by (simp add: ensure_docx_extension_def endswith_def)

lemma gone_fails:
  "source_failure one_object_env w ''s3://b/gone.docx'' =
     Some (Download_failed ''s3://b/gone.docx'' ''S3 object not found: s3://b/gone.docx'')"
  by (simp add: source_failure_def ensure_gone Let_def download_refusal_def host_check_one
      parse_gone client_one download_one_gone download_failure_message_def)
     (simp add: is_s3_uri_def startswith_def)

lemma out_writeable_one: "fst (check_file_writeable one_object_env empty_world ''out.docx'')"
  by (simp add: check_file_writeable_def empty_world_def file_exists_def one_object_env_def
      sample_env_def dirname_def rfind_def Let_def)

theorem merge_aborts_when_a_source_fails_witness:
  "fst (merge_documents sample_env ''out.docx'' [''s3://b/a.docx'', ''missing.docx''] True empty_world)
     = Source_missing ''missing.docx'' \<and>
   merge_aborted empty_world
     (merge_documents sample_env ''out.docx'' [''s3://b/a.docx'', ''missing.docx''] True empty_world) \<and>
   \<not> file_exists (snd (merge_documents sample_env ''out.docx'' [''s3://b/a.docx'', ''missing.docx''] True empty_world))
       ''/tmp/tmpx.docx'' \<and>
   fst (merge_documents one_object_env ''out.docx'' [''s3://b/a.docx'', ''s3://b/gone.docx''] True empty_world)
     = Download_failed ''s3://b/gone.docx'' ''S3 object not found: s3://b/gone.docx'' \<and>
   merge_aborted empty_world
     (merge_documents one_object_env ''out.docx'' [''s3://b/a.docx'', ''s3://b/gone.docx''] True empty_world) \<and>
   \<not> file_exists (snd (merge_documents one_object_env ''out.docx'' [''s3://b/a.docx'', ''s3://b/gone.docx''] True empty_world))
       ''/tmp/tmpx.docx''"
proof -
  have h1: "is_s3_uri (ensure_docx_extension ''out.docx'') \<or>
           fst (check_file_writeable sample_env empty_world (ensure_docx_extension ''out.docx''))"
    using out_writeable by (simp add: ensure_out)
  have h2: "is_s3_uri (ensure_docx_extension ''out.docx'') \<or>
           fst (check_file_writeable one_object_env empty_world (ensure_docx_extension ''out.docx''))"
    using out_writeable_one by (simp add: ensure_out)
  have s1: "[''s3://b/a.docx'', ''missing.docx''] = [''s3://b/a.docx''] @ ''missing.docx'' # []"
    by simp
  have s2: "[''s3://b/a.docx'', ''s3://b/gone.docx''] = [''s3://b/a.docx''] @ ''s3://b/gone.docx'' # []"
    by simp
  note r1 = merge_aborts_when_a_source_fails [where t = "''out.docx''" and e = sample_env
      and w = empty_world
      and srcs = "[''s3://b/a.docx'', ''missing.docx'']" and pre = "[''s3://b/a.docx'']"
      and f = "''missing.docx''" and post = "[]" and apb = True, THEN conjunct1, rule_format,
      OF conjI [OF s1 conjI [OF resolve_prefix_sample missing_fails]]]
  note r2 = merge_aborts_when_a_source_fails [where t = "''out.docx''" and e = one_object_env
      and w = empty_world
      and srcs = "[''s3://b/a.docx'', ''s3://b/gone.docx'']" and pre = "[''s3://b/a.docx'']"
      and f = "''s3://b/gone.docx''" and post = "[]" and apb = True, THEN conjunct1, rule_format,
      OF conjI [OF s2 conjI [OF resolve_prefix_one gone_fails]]]
  from r1 r2 h1 h2 show ?thesis by simp
qed

lemma upload_denied:
  "fst (upload_to_s3 denying_env ''/tmp/work.docx'' ''s3://b/out.docx''
          \<lparr>files = [(''/tmp/work.docx'', Object_bytes 0)], trace = []\<rparr>)
   = (False, ''Access denied uploading to S3: s3://b/out.docx'')"
  by (simp add: upload_to_s3_def host_check_denying parse_out file_exists_def)
     (simp add: denying_env_def sample_env_def upload_failure_message_def Let_def)

lemma refused_denying: "upload_refused denying_env ''s3://b/out.docx''"
  by (simp add: upload_refused_def host_check_denying parse_out) (simp add: denying_env_def)

theorem upload_failure_is_surfaced_witness:
  "fst (S3FileContext_exit denying_env
          \<lparr>original_path = ''s3://b/in.docx'', is_s3 = True, read_only = False,
            local_path = Some ''/tmp/work.docx'', temp_file = Some ''/tmp/in.docx'',
            output_temp_file = Some ''/tmp/work.docx'',
            output_local_path = Some ''/tmp/work.docx'',
            output_s3_uri = Some ''s3://b/out.docx''\<rparr>
          True \<lparr>files = [(''/tmp/work.docx'', Object_bytes 0)], trace = []\<rparr>)
     = Some (IOError ''Failed to upload to S3: Access denied uploading to S3: s3://b/out.docx'') \<and>
   \<not> is_merged (fst (merge_documents denying_env ''s3://b/out.docx'' [''a.docx'', ''b.docx''] True
                        two_local_files))"
proof -
  have f: "file_exists \<lparr>files = [(''/tmp/work.docx'', Object_bytes 0)], trace = []\<rparr> ''/tmp/work.docx''"
    by (simp add: file_exists_def)
  have s: "is_s3_uri (ensure_docx_extension ''s3://b/out.docx'')"
    by (simp add: ensure_s3_out) (simp add: is_s3_uri_def startswith_def)
  have r: "upload_refused denying_env (ensure_docx_extension ''s3://b/out.docx'')"
    using refused_denying by (simp add: ensure_s3_out)
  show ?thesis
    using upload_failure_is_surfaced [of
        "\<lparr>original_path = ''s3://b/in.docx'', is_s3 = True, read_only = False,
            local_path = Some ''/tmp/work.docx'', temp_file = Some ''/tmp/in.docx'',
            output_temp_file = Some ''/tmp/work.docx'',
            output_local_path = Some ''/tmp/work.docx'',
            output_s3_uri = Some ''s3://b/out.docx''\<rparr>"
        "''s3://b/out.docx''" "''/tmp/work.docx''"
        "\<lparr>files = [(''/tmp/work.docx'', Object_bytes 0)], trace = []\<rparr>"
        denying_env "''Access denied uploading to S3: s3://b/out.docx''"
        "''s3://b/out.docx''" "[''a.docx'', ''b.docx'']" True two_local_files]
      f s r upload_denied
    by simp
qed

lemma parse_report: "parse_s3_uri (\<lambda>h. None) ''s3://b/report.docx'' = Inr (''b'', ''report.docx'')"
  by (simp add: parse_defs)

lemma ext_report: "snd (splitext (basename ''report.docx'')) = ''.docx''"
  by (simp add: splitext_def basename_def rfind_def slice_def)

lemma client_missing: "client_failure missing_object_env = None"
  by (simp add: missing_object_env_def sample_env_def)

lemma download_missing_fault:
  "s3_download_file missing_object_env bucket key = Inl (ClientError ''404'' ''Not Found'')"
  by (simp add: missing_object_env_def)

lemma download_missing:
  "download_from_s3 missing_object_env ''s3://b/report.docx'' None empty_world =
     ((False, ''S3 object not found: s3://b/report.docx'', None),
      \<lparr>files = [(''/tmp/tmpx.docx'', Empty_file)],
       trace = [Mkstemp ''/tmp/tmpx.docx'',
                S3_download ''b'' ''report.docx'' ''/tmp/tmpx.docx'' False]\<rparr>)"
  by (simp add: download_from_s3_def host_check_missing parse_report ext_report mkstemp_empty
      client_missing download_missing_fault download_failure_message_def log_def)

lemma is_s3_report: "is_s3_uri ''s3://b/report.docx''"
  by (simp add: is_s3_uri_def startswith_def)

text \<open>
  Claim C1 fails on the code.  \<open>download_from_s3\<close> makes its temporary file before it
  calls the store and returns no path when the call fails, so nobody can delete the
  file: after a session whose download meets a missing object, \<open>__enter__\<close> has raised,
  \<open>__exit__\<close> has not run, and the temporary file is still there.
\<close>

theorem failed_download_leaves_temp_file:
  "with_S3FileContext missing_object_env ''s3://b/report.docx'' True None idle_body empty_world =
     (Inl (IOError ''Failed to download from S3: S3 object not found: s3://b/report.docx''),
      \<lparr>files = [(''/tmp/tmpx.docx'', Empty_file)],
       trace = [Mkstemp ''/tmp/tmpx.docx'',
                S3_download ''b'' ''report.docx'' ''/tmp/tmpx.docx'' False]\<rparr>)"
  by (simp add: with_S3FileContext_def S3FileContext_enter_def enter_input_def
      S3FileContext_init_def is_s3_report download_missing)

lemma versioned_report:
  "generate_versioned_path sample_env ''s3://b/report?rev=2'' = ''s3://b/report?rev=2_edited_1733318400''"
  by (simp add: generate_versioned_path_def sample_env_def splitext_def rfind_def slice_def
      str_int_def nat_digits.simps)

lemma parse_rev: "parse_s3_uri (\<lambda>h. None) ''s3://b/report?rev=2'' = Inr (''b'', ''report'')"
  by (simp add: parse_defs)

lemma parse_versioned:
  "parse_s3_uri (\<lambda>h. None) ''s3://b/report?rev=2_edited_1733318400'' = Inr (''b'', ''report'')"
  by (simp add: parse_defs)

lemma is_s3_rev: "is_s3_uri ''s3://b/report?rev=2''"
  by (simp add: is_s3_uri_def startswith_def)

lemma init_rev:
  "S3FileContext_init sample_env ''s3://b/report?rev=2'' False None =
     \<lparr>original_path = ''s3://b/report?rev=2'', is_s3 = True, read_only = False,
      local_path = None, temp_file = None, output_temp_file = None, output_local_path = None,
      output_s3_uri = Some ''s3://b/report?rev=2_edited_1733318400''\<rparr>"
  by (simp add: S3FileContext_init_def is_s3_rev versioned_report truthy_def)

lemma ext_rev: "snd (splitext (basename ''report'')) = []"
  by (simp add: splitext_def basename_def rfind_def slice_def)

lemma mkstemp_plain: "mkstemp [] empty_world =
   (''/tmp/tmpx'', \<lparr>files = [(''/tmp/tmpx'', Empty_file)], trace = [Mkstemp ''/tmp/tmpx'']\<rparr>)"
  by (simp add: empty_world_def mkstemp_def log_def write_file_def longest_path_def Let_def)

lemma download_rev:
  "download_from_s3 sample_env ''s3://b/report?rev=2'' None empty_world =
     ((True, ''Downloaded from S3'', Some ''/tmp/tmpx''),
      \<lparr>files = [(''/tmp/tmpx'', Object_bytes 0)],
       trace = [Mkstemp ''/tmp/tmpx'', S3_download ''b'' ''report'' ''/tmp/tmpx'' True]\<rparr>)"
  by (simp add: download_from_s3_def host_check_sample parse_rev ext_rev mkstemp_plain
      client_sample download_sample log_def write_file_def)

lemma ext_versioned: "snd (splitext ''s3://b/report?rev=2_edited_1733318400'') = []"
  by (simp add: splitext_def rfind_def slice_def)

lemma mkstemp_second:
  "mkstemp ''.docx'' \<lparr>files = [(''/tmp/tmpx'', Object_bytes 0)],
       trace = [Mkstemp ''/tmp/tmpx'', S3_download ''b'' ''report'' ''/tmp/tmpx'' True]\<rparr> =
   (''/tmp/tmpxxxxxxxxxx.docx'',
    \<lparr>files = [(''/tmp/tmpx'', Object_bytes 0), (''/tmp/tmpxxxxxxxxxx.docx'', Empty_file)],
     trace = [Mkstemp ''/tmp/tmpx'', S3_download ''b'' ''report'' ''/tmp/tmpx'' True,
              Mkstemp ''/tmp/tmpxxxxxxxxxx.docx'']\<rparr>)"
  by (simp add: mkstemp_def log_def write_file_def longest_path_def Let_def)

lemma enter_rev:
  "S3FileContext_enter sample_env (S3FileContext_init sample_env ''s3://b/report?rev=2'' False None)
     empty_world =
   (Inr \<lparr>original_path = ''s3://b/report?rev=2'', is_s3 = True, read_only = False,
         local_path = Some ''/tmp/tmpxxxxxxxxxx.docx'', temp_file = Some ''/tmp/tmpx'',
         output_temp_file = Some ''/tmp/tmpxxxxxxxxxx.docx'',
         output_local_path = Some ''/tmp/tmpxxxxxxxxxx.docx'',
         output_s3_uri = Some ''s3://b/report?rev=2_edited_1733318400''\<rparr>,
    \<lparr>files = [(''/tmp/tmpx'', Object_bytes 0), (''/tmp/tmpxxxxxxxxxx.docx'', Object_bytes 0)],
     trace = [Mkstemp ''/tmp/tmpx'', S3_download ''b'' ''report'' ''/tmp/tmpx'' True,
              Mkstemp ''/tmp/tmpxxxxxxxxxx.docx'',
              Copy ''/tmp/tmpx'' ''/tmp/tmpxxxxxxxxxx.docx'']\<rparr>)"
  by (simp add: init_rev S3FileContext_enter_def enter_input_def download_rev enter_output_def
      ext_versioned mkstemp_second copy2_def log_def write_file_def)

lemma upload_sample: "s3_upload_file sample_env bucket key = None"
  by (simp add: sample_env_def)

lemma exit_rev:
  "S3FileContext_exit sample_env
     \<lparr>original_path = ''s3://b/report?rev=2'', is_s3 = True, read_only = False,
         local_path = Some ''/tmp/tmpxxxxxxxxxx.docx'', temp_file = Some ''/tmp/tmpx'',
         output_temp_file = Some ''/tmp/tmpxxxxxxxxxx.docx'',
         output_local_path = Some ''/tmp/tmpxxxxxxxxxx.docx'',
         output_s3_uri = Some ''s3://b/report?rev=2_edited_1733318400''\<rparr>
     True
     \<lparr>files = [(''/tmp/tmpx'', Object_bytes 0), (''/tmp/tmpxxxxxxxxxx.docx'', Object_bytes 0)],
      trace = [Mkstemp ''/tmp/tmpx'', S3_download ''b'' ''report'' ''/tmp/tmpx'' True,
              Mkstemp ''/tmp/tmpxxxxxxxxxx.docx'',
              Copy ''/tmp/tmpx'' ''/tmp/tmpxxxxxxxxxx.docx'']\<rparr> =
   (None,
    \<lparr>files = [],
     trace = [Mkstemp ''/tmp/tmpx'', S3_download ''b'' ''report'' ''/tmp/tmpx'' True,
              Mkstemp ''/tmp/tmpxxxxxxxxxx.docx'',
              Copy ''/tmp/tmpx'' ''/tmp/tmpxxxxxxxxxx.docx'',
              S3_upload ''/tmp/tmpxxxxxxxxxx.docx'' ''b'' ''report''
                ''application/vnd.openxmlformats-officedocument.wordprocessingml.document'' True,
              Unlink ''/tmp/tmpx'', Unlink ''/tmp/tmpxxxxxxxxxx.docx'']\<rparr>)"
  by (simp add: S3FileContext_exit_def exit_upload_def exit_cleanup_def upload_to_s3_def
      host_check_sample parse_versioned file_exists_def client_sample upload_sample
      upload_content_type_def endswith_def log_def unlink_def Let_def)

text \<open>
  Claim C2 fails on the code.  The versioned path is made by \<open>splitext\<close> on the whole
  URI, while the store address is made by \<open>urlparse\<close>, which cuts the key at the first
  \<open>?\<close> or \<open>#\<close>.  For \<open>s3://b/report?rev=2\<close> the suffix lands in the query: the path
  returned to the caller is \<open>s3://b/report?rev=2_edited_1733318400\<close>, and the upload on
  close goes to bucket \<open>b\<close>, key \<open>report\<close>, the object that was downloaded.
\<close>

theorem versioned_upload_overwrites_original:
  "with_S3FileContext sample_env ''s3://b/report?rev=2'' False None idle_body empty_world =
   (Inr \<lparr>original_path = ''s3://b/report?rev=2'', is_s3 = True, read_only = False,
         local_path = Some ''/tmp/tmpxxxxxxxxxx.docx'', temp_file = Some ''/tmp/tmpx'',
         output_temp_file = Some ''/tmp/tmpxxxxxxxxxx.docx'',
         output_local_path = Some ''/tmp/tmpxxxxxxxxxx.docx'',
         output_s3_uri = Some ''s3://b/report?rev=2_edited_1733318400''\<rparr>,
    \<lparr>files = [],
     trace = [Mkstemp ''/tmp/tmpx'', S3_download ''b'' ''report'' ''/tmp/tmpx'' True,
              Mkstemp ''/tmp/tmpxxxxxxxxxx.docx'',
              Copy ''/tmp/tmpx'' ''/tmp/tmpxxxxxxxxxx.docx'',
              S3_upload ''/tmp/tmpxxxxxxxxxx.docx'' ''b'' ''report''
                ''application/vnd.openxmlformats-officedocument.wordprocessingml.document'' True,
              Unlink ''/tmp/tmpx'', Unlink ''/tmp/tmpxxxxxxxxxx.docx'']\<rparr>)"
  by (simp add: with_S3FileContext_def enter_rev idle_body_def exit_rev)

lemma versioned_clean:
  "generate_versioned_path sample_env ''s3://b/report.docx'' = ''s3://b/report_edited_1733318400.docx''"
  by (simp add: generate_versioned_path_def sample_env_def splitext_def rfind_def slice_def
      str_int_def nat_digits.simps)

lemma init_clean:
  "S3FileContext_init sample_env ''s3://b/report.docx'' False None =
     \<lparr>original_path = ''s3://b/report.docx'', is_s3 = True, read_only = False,
      local_path = None, temp_file = None, output_temp_file = None, output_local_path = None,
      output_s3_uri = Some ''s3://b/report_edited_1733318400.docx''\<rparr>"
  by (simp add: S3FileContext_init_def is_s3_report versioned_clean truthy_def)

lemma download_clean:
  "download_from_s3 sample_env ''s3://b/report.docx'' None empty_world =
     ((True, ''Downloaded from S3'', Some ''/tmp/tmpx.docx''),
      \<lparr>files = [(''/tmp/tmpx.docx'', Object_bytes 0)],
       trace = [Mkstemp ''/tmp/tmpx.docx'',
                S3_download ''b'' ''report.docx'' ''/tmp/tmpx.docx'' True]\<rparr>)"
  by (simp add: download_from_s3_def host_check_sample parse_report ext_report mkstemp_empty
      client_sample download_sample log_def write_file_def)

lemma ext_versioned_clean: "snd (splitext ''s3://b/report_edited_1733318400.docx'') = ''.docx''"
  by (simp add: splitext_def rfind_def slice_def)

lemma mkstemp_second_clean:
  "mkstemp ''.docx'' \<lparr>files = [(''/tmp/tmpx.docx'', Object_bytes 0)],
       trace = [Mkstemp ''/tmp/tmpx.docx'',
                S3_download ''b'' ''report.docx'' ''/tmp/tmpx.docx'' True]\<rparr> =
   (''/tmp/tmpxxxxxxxxxxxxxxx.docx'',
    \<lparr>files = [(''/tmp/tmpx.docx'', Object_bytes 0),
              (''/tmp/tmpxxxxxxxxxxxxxxx.docx'', Empty_file)],
     trace = [Mkstemp ''/tmp/tmpx.docx'',
              S3_download ''b'' ''report.docx'' ''/tmp/tmpx.docx'' True,
              Mkstemp ''/tmp/tmpxxxxxxxxxxxxxxx.docx'']\<rparr>)"
  by (simp add: mkstemp_def log_def write_file_def longest_path_def Let_def)

lemma enter_clean:
  "S3FileContext_enter sample_env (S3FileContext_init sample_env ''s3://b/report.docx'' False None)
     empty_world =
   (Inr \<lparr>original_path = ''s3://b/report.docx'', is_s3 = True, read_only = False,
         local_path = Some ''/tmp/tmpxxxxxxxxxxxxxxx.docx'', temp_file = Some ''/tmp/tmpx.docx'',
         output_temp_file = Some ''/tmp/tmpxxxxxxxxxxxxxxx.docx'',
         output_local_path = Some ''/tmp/tmpxxxxxxxxxxxxxxx.docx'',
         output_s3_uri = Some ''s3://b/report_edited_1733318400.docx''\<rparr>,
    \<lparr>files = [(''/tmp/tmpx.docx'', Object_bytes 0),
              (''/tmp/tmpxxxxxxxxxxxxxxx.docx'', Object_bytes 0)],
     trace = [Mkstemp ''/tmp/tmpx.docx'',
              S3_download ''b'' ''report.docx'' ''/tmp/tmpx.docx'' True,
              Mkstemp ''/tmp/tmpxxxxxxxxxxxxxxx.docx'',
              Copy ''/tmp/tmpx.docx'' ''/tmp/tmpxxxxxxxxxxxxxxx.docx'']\<rparr>)"
  by (simp add: init_clean S3FileContext_enter_def enter_input_def download_clean
      enter_output_def ext_versioned_clean mkstemp_second_clean copy2_def log_def write_file_def
      Let_def)

lemma parse_versioned_clean:
  "parse_s3_uri (\<lambda>h. None) ''s3://b/report_edited_1733318400.docx'' =
     Inr (''b'', ''report_edited_1733318400.docx'')"
  by (simp add: parse_defs)

lemma upload_of_removed_file:
  "fst (upload_to_s3 sample_env ''/tmp/tmpxxxxxxxxxxxxxxx.docx''
          ''s3://b/report_edited_1733318400.docx''
          \<lparr>files = [(''/tmp/tmpx.docx'', Object_bytes 0)],
           trace = [Mkstemp ''/tmp/tmpx.docx'',
                    S3_download ''b'' ''report.docx'' ''/tmp/tmpx.docx'' True,
                    Mkstemp ''/tmp/tmpxxxxxxxxxxxxxxx.docx'',
                    Copy ''/tmp/tmpx.docx'' ''/tmp/tmpxxxxxxxxxxxxxxx.docx'']\<rparr>)
   = (False, ''Local file does not exist: /tmp/tmpxxxxxxxxxxxxxxx.docx'')"
  by (simp add: upload_to_s3_def host_check_sample parse_versioned_clean file_exists_def)

lemma exit_clean:
  "S3FileContext_exit sample_env
     \<lparr>original_path = ''s3://b/report.docx'', is_s3 = True, read_only = False,
         local_path = Some ''/tmp/tmpxxxxxxxxxxxxxxx.docx'', temp_file = Some ''/tmp/tmpx.docx'',
         output_temp_file = Some ''/tmp/tmpxxxxxxxxxxxxxxx.docx'',
         output_local_path = Some ''/tmp/tmpxxxxxxxxxxxxxxx.docx'',
         output_s3_uri = Some ''s3://b/report_edited_1733318400.docx''\<rparr>
     True
     \<lparr>files = [(''/tmp/tmpx.docx'', Object_bytes 0)],
      trace = [Mkstemp ''/tmp/tmpx.docx'',
               S3_download ''b'' ''report.docx'' ''/tmp/tmpx.docx'' True,
               Mkstemp ''/tmp/tmpxxxxxxxxxxxxxxx.docx'',
               Copy ''/tmp/tmpx.docx'' ''/tmp/tmpxxxxxxxxxxxxxxx.docx'']\<rparr> =
   (None,
    \<lparr>files = [],
     trace = [Mkstemp ''/tmp/tmpx.docx'',
              S3_download ''b'' ''report.docx'' ''/tmp/tmpx.docx'' True,
              Mkstemp ''/tmp/tmpxxxxxxxxxxxxxxx.docx'',
              Copy ''/tmp/tmpx.docx'' ''/tmp/tmpxxxxxxxxxxxxxxx.docx'',
              Unlink ''/tmp/tmpx.docx'']\<rparr>)"
  by (simp add: S3FileContext_exit_def exit_upload_def exit_cleanup_def file_exists_def
      log_def unlink_def Let_def)

text \<open>
  Claim C3 as stated fails.  In this session the body removes the working file.
  \<open>upload_to_s3\<close> on the state that \<open>__exit__\<close> meets reports failure, since the local
  file does not exist; \<open>__exit__\<close> tests for the file first, skips the upload and
  raises nothing.  The session ends without an exception and without an upload call,
  and \<open>get_result_path\<close> still gives the versioned address.
\<close>

theorem missing_working_file_skips_upload:
  "with_S3FileContext sample_env ''s3://b/report.docx'' False None removing_body empty_world =
   (Inr \<lparr>original_path = ''s3://b/report.docx'', is_s3 = True, read_only = False,
         local_path = Some ''/tmp/tmpxxxxxxxxxxxxxxx.docx'', temp_file = Some ''/tmp/tmpx.docx'',
         output_temp_file = Some ''/tmp/tmpxxxxxxxxxxxxxxx.docx'',
         output_local_path = Some ''/tmp/tmpxxxxxxxxxxxxxxx.docx'',
         output_s3_uri = Some ''s3://b/report_edited_1733318400.docx''\<rparr>,
    \<lparr>files = [],
     trace = [Mkstemp ''/tmp/tmpx.docx'',
              S3_download ''b'' ''report.docx'' ''/tmp/tmpx.docx'' True,
              Mkstemp ''/tmp/tmpxxxxxxxxxxxxxxx.docx'',
              Copy ''/tmp/tmpx.docx'' ''/tmp/tmpxxxxxxxxxxxxxxx.docx'',
              Unlink ''/tmp/tmpx.docx'']\<rparr>) \<and>
   fst (upload_to_s3 sample_env ''/tmp/tmpxxxxxxxxxxxxxxx.docx''
          ''s3://b/report_edited_1733318400.docx''
          \<lparr>files = [(''/tmp/tmpx.docx'', Object_bytes 0)],
           trace = [Mkstemp ''/tmp/tmpx.docx'',
                    S3_download ''b'' ''report.docx'' ''/tmp/tmpx.docx'' True,
                    Mkstemp ''/tmp/tmpxxxxxxxxxxxxxxx.docx'',
                    Copy ''/tmp/tmpx.docx'' ''/tmp/tmpxxxxxxxxxxxxxxx.docx'']\<rparr>)
   = (False, ''Local file does not exist: /tmp/tmpxxxxxxxxxxxxxxx.docx'')"
  by (simp add: with_S3FileContext_def enter_clean removing_body_def path_of_def exit_clean
      upload_of_removed_file)

lemma not_s3_out: "\<not> is_s3_uri ''out.docx''"
  by (simp add: is_s3_uri_def startswith_def)

lemma merge_world_sample:
  "merge_world sample_env ''out.docx'' [''a.docx'', ''b.docx''] two_local_files = two_local_files"
  by (simp add: merge_world_def sample_sources_resolve create_target_file_def ensure_out not_s3_out
      del: resolve_sources.simps)

lemma merge_target_path_sample:
  "merge_target_path sample_env ''out.docx'' [''a.docx'', ''b.docx''] two_local_files = ''out.docx''"
  by (simp add: merge_target_path_def sample_sources_resolve create_target_file_def ensure_out
      not_s3_out del: resolve_sources.simps)

lemma source_document_a:
  "source_document sample_env two_local_files ''a.docx'' = Inr (sample_document 0)"
  by (simp add: source_document_def source_contents_def ensure_docx_extension_def endswith_def
      is_s3_uri_def startswith_def two_local_files_def sample_env_def)

lemma source_document_b:
  "source_document sample_env two_local_files ''b.docx'' = Inr (sample_document 2)"
  by (simp add: source_document_def source_contents_def ensure_docx_extension_def endswith_def
      is_s3_uri_def startswith_def two_local_files_def sample_env_def)

lemma copied_alpha:
  "copied sample_env (sample_document 0) =
     [Paragraph \<lparr>new_text = ''Alpha'', new_style = ''Normal'',
                 new_runs = [\<lparr>bold = Some True, italic = None, underline = None,
                              font_size = None\<rparr>]\<rparr>]"
  by (simp add: copied_def sample_document_def copy_paragraph_def sample_env_def plain_run_def
      copy_run_def Let_def)

lemma copied_beta:
  "copied sample_env (sample_document 2) =
     [Paragraph \<lparr>new_text = ''Beta'', new_style = ''Normal'',
                 new_runs = [\<lparr>bold = Some True, italic = None, underline = None,
                              font_size = None\<rparr>]\<rparr>]"
  by (simp add: copied_def sample_document_def copy_paragraph_def sample_env_def plain_run_def
      copy_run_def Let_def)

theorem merge_inserts_page_breaks_between_sources_witness:
  "saves (snd (merge_documents sample_env ''out.docx'' [''a.docx'', ''b.docx''] True two_local_files)) =
     [Save ''out.docx''
        [Paragraph \<lparr>new_text = ''Alpha'', new_style = ''Normal'',
                    new_runs = [\<lparr>bold = Some True, italic = None, underline = None,
                                 font_size = None\<rparr>]\<rparr>,
         Page_break,
         Paragraph \<lparr>new_text = ''Beta'', new_style = ''Normal'',
                    new_runs = [\<lparr>bold = Some True, italic = None, underline = None,
                                 font_size = None\<rparr>]\<rparr>]]"
proof -
  have h: "merge_documents sample_env ''out.docx'' [''a.docx'', ''b.docx''] True two_local_files =
           (Merged 2 ''out.docx'',
            snd (merge_documents sample_env ''out.docx'' [''a.docx'', ''b.docx''] True two_local_files))"
    using sample_merge_succeeds by (metis prod.collapse)
  from merge_inserts_page_breaks_between_sources [OF h] obtain ds where
    sd: "map (source_document sample_env two_local_files) [''a.docx'', ''b.docx''] = map Inr ds" and
    sv: "saves (snd (merge_documents sample_env ''out.docx'' [''a.docx'', ''b.docx''] True
                       two_local_files)) =
         saves two_local_files @
           [Save ''out.docx'' (merged_layout True (map (copied sample_env) ds))]"
    unfolding merge_world_sample merge_target_path_sample by blast
  have ds: "ds = [sample_document 0, sample_document 2]"
    using sd by (auto simp: source_document_a source_document_b Cons_eq_map_conv)
  show ?thesis
    unfolding sv ds
    by (simp add: copied_alpha copied_beta merged_layout_def saves_def two_local_files_def)
qed

section \<open>The locator parser\<close>

lemma takeWhile_twice:
  "takeWhile P (takeWhile Q xs) = takeWhile (\<lambda>c. P c \<and> Q c) xs"
  by (induction xs) auto

lemma is_s3_uri_wide_iff: "is_s3_uri_wide u = (\<exists>r. u = wide ''s3://'' @ r)"
proof
  assume "is_s3_uri_wide u"
  then have "take (length ''s3://'') u = wide ''s3://''" unfolding is_s3_uri_wide_def .
  then have "u = wide ''s3://'' @ drop (length ''s3://'') u" by (metis append_take_drop_id)
  then show "\<exists>r. u = wide ''s3://'' @ r" ..
next
  assume "\<exists>r. u = wide ''s3://'' @ r"
  then show "is_s3_uri_wide u" by (auto simp: is_s3_uri_wide_def wide_def)
qed

lemma wide_s3: "wide ''s3://'' = [115, 51, 58, 47, 47]"
  by (simp add: wide_def)

lemma split_scheme_wide_s3: "split_scheme_wide (wide ''s3://'' @ r) = wide ''//'' @ r"
  by (simp add: split_scheme_wide_def wide_def ascii_letters_def scheme_chars_def)

lemma urlparse_wide_s3:
  "urlparse_wide ck (wide ''s3://'' @ r) =
     (case check_netloc_brackets_wide ck
             (takeWhile (\<lambda>n. \<not> netloc_delim_wide n) (filter (\<lambda>n. \<not> unsafe_code_point n) r)) of
        Some m \<Rightarrow> Inl m
      | None \<Rightarrow>
          Inr (takeWhile (\<lambda>n. \<not> netloc_delim_wide n) (filter (\<lambda>n. \<not> unsafe_code_point n) r),
               takeWhile (\<lambda>n. n \<noteq> of_char CHR ''?'' \<and> n \<noteq> of_char CHR ''#'')
                        (dropWhile (\<lambda>n. \<not> netloc_delim_wide n)
                           (filter (\<lambda>n. \<not> unsafe_code_point n) r))))"
proof -
  have f: "filter (\<lambda>n. \<not> unsafe_code_point n) (wide ''s3://'' @ r) =
           wide ''s3://'' @ filter (\<lambda>n. \<not> unsafe_code_point n) r"
    by (simp add: unsafe_code_point_def wide_def)
  have sn: "(if take 2 (wide ''//'' @ x) = wide ''//''
             then splitnetloc_wide (wide ''//'' @ x) else ([], wide ''//'' @ x)) =
            (takeWhile (\<lambda>n. \<not> netloc_delim_wide n) x, dropWhile (\<lambda>n. \<not> netloc_delim_wide n) x)"
    for x by (simp add: wide_def splitnetloc_wide_def)
  show ?thesis
    unfolding urlparse_wide_def f split_scheme_wide_s3 Let_def sn
    by (simp add: takeWhile_twice split: option.splits)
qed

lemma parse_s3_uri_wide_s3:
  "parse_s3_uri_wide ck (wide ''s3://'' @ r) =
     (let rest = filter (\<lambda>n. \<not> unsafe_code_point n) r;
          authority = takeWhile (\<lambda>n. \<not> netloc_delim_wide n) rest;
          key = dropWhile (\<lambda>n. n = of_char CHR ''/'')
                  (takeWhile (\<lambda>n. n \<noteq> of_char CHR ''?'' \<and> n \<noteq> of_char CHR ''#'')
                     (dropWhile (\<lambda>n. \<not> netloc_delim_wide n) rest))
      in if unmatched_bracket authority then Inl (Rejected_by_urlparse ''Invalid IPv6 URL'')
         else case ck authority of
                Some m \<Rightarrow> Inl (Rejected_by_urlparse m)
              | None \<Rightarrow>
                  if authority = [] then Inl No_bucket_specified
                  else if key = [] then Inl No_key_specified
                  else Inr (authority, key))"
proof -
  have s: "is_s3_uri_wide (wide ''s3://'' @ r)" using is_s3_uri_wide_iff by blast
  show ?thesis
    unfolding parse_s3_uri_wide_def urlparse_wide_s3 using s
    by (simp add: Let_def check_netloc_brackets_wide_def split: option.splits)
qed

lemma is_s3_uri_iff: "is_s3_uri s = (\<exists>r. s = ''s3://'' @ r)"
proof
  assume "is_s3_uri s"
  then have "take (length ''s3://'') s = ''s3://''" unfolding is_s3_uri_def startswith_def .
  then have "s = ''s3://'' @ drop (length ''s3://'') s" by (metis append_take_drop_id)
  then show "\<exists>r. s = ''s3://'' @ r" ..
next
  assume "\<exists>r. s = ''s3://'' @ r"
  then show "is_s3_uri s" by (auto simp: is_s3_uri_def startswith_def)
qed

lemma split_scheme_s3: "split_scheme (''s3://'' @ r) = ''//'' @ r"
  by (simp add: split_scheme_def ascii_letters_def scheme_chars_def)

lemma urlparse_s3:
  "urlparse ck (''s3://'' @ r) =
     (case check_netloc_brackets ck
             (takeWhile (\<lambda>c. \<not> netloc_delim c) (filter (\<lambda>c. \<not> unsafe_url_char c) r)) of
        Some m \<Rightarrow> Inl (ValueError m)
      | None \<Rightarrow>
          Inr \<lparr>netloc = takeWhile (\<lambda>c. \<not> netloc_delim c) (filter (\<lambda>c. \<not> unsafe_url_char c) r),
               path = takeWhile (\<lambda>c. c \<noteq> CHR ''?'' \<and> c \<noteq> CHR ''#'')
                        (dropWhile (\<lambda>c. \<not> netloc_delim c)
                           (filter (\<lambda>c. \<not> unsafe_url_char c) r))\<rparr>)"
proof -
  have f: "filter (\<lambda>c. \<not> unsafe_url_char c) (''s3://'' @ r) =
           ''s3://'' @ filter (\<lambda>c. \<not> unsafe_url_char c) r"
    by (simp add: unsafe_url_char_def)
  show ?thesis
    unfolding urlparse_def f split_scheme_s3
    by (simp add: splitnetloc_def takeWhile_twice split: option.splits)
qed

lemma parse_s3_uri_s3:
  "parse_s3_uri ck (''s3://'' @ r) =
     (let rest = filter (\<lambda>c. \<not> unsafe_url_char c) r;
          authority = takeWhile (\<lambda>c. \<not> netloc_delim c) rest;
          key = dropWhile (\<lambda>c. c = CHR ''/'')
                  (takeWhile (\<lambda>c. c \<noteq> CHR ''?'' \<and> c \<noteq> CHR ''#'')
                     (dropWhile (\<lambda>c. \<not> netloc_delim c) rest))
      in case check_netloc_brackets ck authority of
           Some m \<Rightarrow> Inl (ValueError m)
         | None \<Rightarrow>
             if authority = []
             then Inl (ValueError (''No bucket specified in S3 URI: '' @ ''s3://'' @ r))
             else if key = []
             then Inl (ValueError (''No key specified in S3 URI: '' @ ''s3://'' @ r))
             else Inr (authority, key))"
proof -
  have s: "is_s3_uri (''s3://'' @ r)" using is_s3_uri_iff by blast
  show ?thesis
    unfolding parse_s3_uri_def urlparse_s3 using s
    by (simp add: Let_def lstrip_def split: option.splits)
qed

lemma wide_append: "wide (a @ b) = wide a @ wide b"
  by (simp add: wide_def)

lemma wide_eq_iff: "(wide a = wide b) = (a = b)"
  by (simp add: wide_def inj_map_eq_map inj_on_def)

lemma unsafe_code_point_of_char: "unsafe_code_point (of_char c) = unsafe_url_char c"
  unfolding unsafe_code_point_def unsafe_url_char_def of_char_eq_iff ..

lemma netloc_delim_wide_of_char: "netloc_delim_wide (of_char c) = netloc_delim c"
  unfolding netloc_delim_wide_def netloc_delim_def of_char_eq_iff ..

lemma wide_filter_unsafe:
  "filter (\<lambda>n. \<not> unsafe_code_point n) (wide r) = wide (filter (\<lambda>c. \<not> unsafe_url_char c) r)"
  unfolding wide_def filter_map o_def unsafe_code_point_of_char ..

lemma wide_takeWhile_delim:
  "takeWhile (\<lambda>n. \<not> netloc_delim_wide n) (wide x) = wide (takeWhile (\<lambda>c. \<not> netloc_delim c) x)"
  unfolding wide_def takeWhile_map o_def netloc_delim_wide_of_char ..

lemma wide_dropWhile_delim:
  "dropWhile (\<lambda>n. \<not> netloc_delim_wide n) (wide x) = wide (dropWhile (\<lambda>c. \<not> netloc_delim c) x)"
  unfolding wide_def dropWhile_map o_def netloc_delim_wide_of_char ..

lemma wide_takeWhile_path:
  "takeWhile (\<lambda>n. n \<noteq> of_char CHR ''?'' \<and> n \<noteq> of_char CHR ''#'') (wide x) =
   wide (takeWhile (\<lambda>c. c \<noteq> CHR ''?'' \<and> c \<noteq> CHR ''#'') x)"
  unfolding wide_def takeWhile_map o_def of_char_eq_iff ..

lemma wide_dropWhile_slash:
  "dropWhile (\<lambda>n. n = of_char CHR ''/'') (wide x) = wide (dropWhile (\<lambda>c. c = CHR ''/'') x)"
  unfolding wide_def dropWhile_map o_def of_char_eq_iff ..

lemma of_char_in_wide: "((of_char c :: nat) \<in> set (wide x)) = (c \<in> set x)"
proof -
  have "((of_char c :: nat) \<in> of_char ` set x) = (c \<in> set x)"
    using inj_of_char [where ?'a = nat] by (auto simp only: inj_image_mem_iff)
  then show ?thesis unfolding wide_def set_map .
qed

lemma wide_unmatched:
  "unmatched_bracket (wide nl) =
     ((CHR ''['' \<in> set nl \<and> CHR '']'' \<notin> set nl) \<or> (CHR '']'' \<in> set nl \<and> CHR ''['' \<notin> set nl))"
  unfolding unmatched_bracket_def of_char_in_wide ..

lemma wide_nil: "(wide x = []) = (x = [])"
  by (simp add: wide_def)

lemma is_s3_uri_wide_agrees: "is_s3_uri_wide (wide s) = is_s3_uri s"
proof -
  have "(take (length ''s3://'') (wide s) = wide ''s3://'') = (take (length ''s3://'') s = ''s3://'')"
    using wide_eq_iff [of "take (length ''s3://'') s" "''s3://''"] by (simp add: wide_def take_map)
  then show ?thesis by (simp add: is_s3_uri_wide_def is_s3_uri_def startswith_def)
qed

lemma parse_s3_uri_wide_agrees:
  "map_sum (\<lambda>err. ()) id (parse_s3_uri_wide ck (wide s)) =
   map_sum (\<lambda>err. ()) (\<lambda>(bucket, key). (wide bucket, wide key))
     (parse_s3_uri (\<lambda>nl. ck (wide nl)) s)"
proof (cases "is_s3_uri s")
  case False
  then show ?thesis
    by (simp add: parse_s3_uri_wide_def parse_s3_uri_def is_s3_uri_wide_agrees)
next
  case True
  then obtain r where s: "s = ''s3://'' @ r" using is_s3_uri_iff by blast
  show ?thesis
    unfolding s wide_append parse_s3_uri_wide_s3 parse_s3_uri_s3 Let_def wide_filter_unsafe
      wide_takeWhile_delim wide_dropWhile_delim wide_takeWhile_path wide_dropWhile_slash
      wide_unmatched wide_nil check_netloc_brackets_def
    by (auto split: option.splits)
qed

text \<open>
  Claim C8, as amended.  A string is remote exactly when it starts with \<open>s3://\<close>.
  For a remote string, take what follows the prefix, with tabs and line breaks
  removed: the authority is its part before the first \<open>/\<close>, \<open>?\<close> or \<open>#\<close>; the path
  runs from there to the first \<open>?\<close> or \<open>#\<close>; the key is the path without its leading
  separators.  Parsing fails (with \<open>ValueError\<close>, the spec's \<open>InvalidAddress\<close>) exactly
  when the authority has one square bracket without the other, or \<open>urlparse\<close>
  rejects the authority in its further validation, or the authority is empty, or the
  key is empty; otherwise it returns the authority as bucket and the key.  The
  statement is about strings of arbitrary code points.
\<close>

theorem parse_s3_uri_characterisation:
  "is_s3_uri_wide u = (\<exists>r. u = wide ''s3://'' @ r) \<and>
   parse_s3_uri_wide ck (wide ''s3://'' @ r) =
     (let rest = filter (\<lambda>n. \<not> unsafe_code_point n) r;
          authority = takeWhile (\<lambda>n. \<not> netloc_delim_wide n) rest;
          key = dropWhile (\<lambda>n. n = of_char CHR ''/'')
                  (takeWhile (\<lambda>n. n \<noteq> of_char CHR ''?'' \<and> n \<noteq> of_char CHR ''#'')
                     (dropWhile (\<lambda>n. \<not> netloc_delim_wide n) rest))
      in if unmatched_bracket authority then Inl (Rejected_by_urlparse ''Invalid IPv6 URL'')
         else case ck authority of
                Some m \<Rightarrow> Inl (Rejected_by_urlparse m)
              | None \<Rightarrow>
                  if authority = [] then Inl No_bucket_specified
                  else if key = [] then Inl No_key_specified
                  else Inr (authority, key))"
  using is_s3_uri_wide_iff [of u] parse_s3_uri_wide_s3 [of ck r] by simp

text \<open>
  Claim C8 as stated fails: \<open>s3://[b/k\<close> has a bucket and a key after the scheme, and
  parsing it fails all the same, with the \<open>ValueError\<close> that \<open>urlparse\<close> raises for a
  network location with an unmatched square bracket.
\<close>

theorem unmatched_bracket_is_rejected:
  "\<forall>ck. parse_s3_uri_wide ck (wide ''s3://[b/k'') = Inl (Rejected_by_urlparse ''Invalid IPv6 URL'')"
proof
  fix ck
  have w: "wide ''s3://[b/k'' = wide ''s3://'' @ wide ''[b/k''" by (simp add: wide_def)
  show "parse_s3_uri_wide ck (wide ''s3://[b/k'') = Inl (Rejected_by_urlparse ''Invalid IPv6 URL'')"
    unfolding w
    by (subst parse_s3_uri_wide_s3)
       (simp add: Let_def unmatched_bracket_def netloc_delim_wide_def unsafe_code_point_def
          wide_def)
qed

end
